theory Spec2Isabelle
  imports Complex_Main
begin

section \<open>Numbers\<close>

text \<open>
  A TypeScript \<^verbatim>\<open>number\<close> is modelled as an exact real number or one of the three
  special values of IEEE arithmetic. Finite arithmetic is exact, except in
  \<open>tonemapReinhard\<close>, whose range depends on the rounding and which is modelled with it
  (see Rounding below); overflow is not modelled. What is modelled throughout is where
  the special values come from and how they spread: a division by zero gives an infinity or \<open>NaN\<close>, \<open>0 * Infinity\<close> is \<open>NaN\<close>, and
  every comparison with \<open>NaN\<close> is false. Zero carries no sign: a zero divisor is taken as
  \<open>+0\<close>, which is what every divisor of the program is when it is zero (a sum of squares,
  a loop bound, \<open>1 + c\<close>).
\<close>

datatype number = Fin real | PInf | NInf | NaN

text \<open>The infinity with the sign of \<open>s\<close>; \<open>NaN\<close> where the sign is that of zero.\<close>

definition signedInf :: "real \<Rightarrow> number" where
  "signedInf s = (if s = 0 then NaN else if 0 < s then PInf else NInf)"

instantiation number :: "{plus, minus, uminus, times, inverse, ord}"
begin

fun plus_number :: "number \<Rightarrow> number \<Rightarrow> number" where
  "plus_number (Fin a) (Fin b) = Fin (a + b)"
| "plus_number NaN _ = NaN"
| "plus_number _ NaN = NaN"
| "plus_number PInf NInf = NaN"
| "plus_number NInf PInf = NaN"
| "plus_number PInf _ = PInf"
| "plus_number _ PInf = PInf"
| "plus_number NInf _ = NInf"
| "plus_number _ NInf = NInf"

fun uminus_number :: "number \<Rightarrow> number" where
  "uminus_number (Fin a) = Fin (- a)"
| "uminus_number PInf = NInf"
| "uminus_number NInf = PInf"
| "uminus_number NaN = NaN"

definition minus_number :: "number \<Rightarrow> number \<Rightarrow> number" where
  "minus_number a b = a + (- b)"

fun times_number :: "number \<Rightarrow> number \<Rightarrow> number" where
  "times_number (Fin a) (Fin b) = Fin (a * b)"
| "times_number NaN _ = NaN"
| "times_number _ NaN = NaN"
| "times_number (Fin a) PInf = signedInf a"
| "times_number (Fin a) NInf = signedInf (- a)"
| "times_number PInf (Fin b) = signedInf b"
| "times_number NInf (Fin b) = signedInf (- b)"
| "times_number PInf PInf = PInf"
| "times_number NInf NInf = PInf"
| "times_number PInf NInf = NInf"
| "times_number NInf PInf = NInf"

fun divide_number :: "number \<Rightarrow> number \<Rightarrow> number" where
  "divide_number (Fin a) (Fin b) = (if b = 0 then signedInf a else Fin (a / b))"
| "divide_number NaN _ = NaN"
| "divide_number _ NaN = NaN"
| "divide_number (Fin a) PInf = Fin 0"
| "divide_number (Fin a) NInf = Fin 0"
| "divide_number PInf (Fin b) = (if 0 \<le> b then PInf else NInf)"
| "divide_number NInf (Fin b) = (if 0 \<le> b then NInf else PInf)"
| "divide_number PInf PInf = NaN"
| "divide_number PInf NInf = NaN"
| "divide_number NInf PInf = NaN"
| "divide_number NInf NInf = NaN"

definition inverse_number :: "number \<Rightarrow> number" where
  "inverse_number a = divide (Fin 1) a"

fun less_number :: "number \<Rightarrow> number \<Rightarrow> bool" where
  "less_number (Fin a) (Fin b) = (a < b)"
| "less_number NaN _ = False"
| "less_number _ NaN = False"
| "less_number PInf _ = False"
| "less_number _ NInf = False"
| "less_number NInf _ = True"
| "less_number _ PInf = True"

definition less_eq_number :: "number \<Rightarrow> number \<Rightarrow> bool" where
  "less_eq_number a b = (a < b \<or> (a = b \<and> a \<noteq> NaN))"

instance ..

end

subsection \<open>The \<^verbatim>\<open>Math\<close> object\<close>

definition Math_PI :: number where
  "Math_PI = Fin pi"

fun Math_sqrt :: "number \<Rightarrow> number" where
  "Math_sqrt (Fin a) = (if a < 0 then NaN else Fin (sqrt a))"
| "Math_sqrt PInf = PInf"
| "Math_sqrt NInf = NaN"
| "Math_sqrt NaN = NaN"

fun Math_abs :: "number \<Rightarrow> number" where
  "Math_abs (Fin a) = Fin \<bar>a\<bar>"
| "Math_abs PInf = PInf"
| "Math_abs NInf = PInf"
| "Math_abs NaN = NaN"

text \<open>\<^verbatim>\<open>Math.max\<close> returns \<open>NaN\<close> as soon as one argument is \<open>NaN\<close>.\<close>

fun Math_max :: "number \<Rightarrow> number \<Rightarrow> number" where
  "Math_max NaN _ = NaN"
| "Math_max _ NaN = NaN"
| "Math_max a b = (if a < b then b else a)"

fun Math_cos :: "number \<Rightarrow> number" where
  "Math_cos (Fin a) = Fin (cos a)"
| "Math_cos _ = NaN"

fun Math_sin :: "number \<Rightarrow> number" where
  "Math_sin (Fin a) = Fin (sin a)"
| "Math_sin _ = NaN"

text \<open>The tangent has no value at its poles; the model gives \<open>NaN\<close> there.\<close>

fun Math_tan :: "number \<Rightarrow> number" where
  "Math_tan (Fin a) = (if cos a = 0 then NaN else Fin (tan a))"
| "Math_tan _ = NaN"

text \<open>
  \<^verbatim>\<open>Math.random()\<close> draws from a process-wide source. The source is a sequence
  \<open>rnd\<close> of reals, and the state is the index of the next draw.
\<close>

definition Math_random :: "(nat \<Rightarrow> real) \<Rightarrow> nat \<Rightarrow> number \<times> nat" where
  "Math_random rnd k = (Fin (rnd k), Suc k)"

subsection \<open>Rounding\<close>

text \<open>
  IEEE arithmetic returns the exact result of an operation rounded to the nearest number
  of \<open>p\<close> significant bits, a tie going to the neighbour whose last bit is even: \<open>p = 53\<close>
  for a \<^verbatim>\<open>number\<close>, \<open>p = 24\<close> for an element of a \<^verbatim>\<open>Float32Array\<close>. \<open>rne\<close> rounds a real to
  an integer, \<open>gridUnit p x\<close> is the distance between neighbouring \<open>p\<close>-bit numbers at the
  magnitude of \<open>x\<close>, and \<open>roundTo p x\<close> is the \<open>p\<close>-bit number nearest to \<open>x\<close>. The exponent
  range is unbounded: overflow to an infinity and the subnormal numbers are left out.
\<close>

definition rne :: "real \<Rightarrow> int" where
  "rne y =
     (let f = \<lfloor>y\<rfloor>; d = y - of_int f
      in if d < 1 / 2 then f else if 1 / 2 < d then f + 1 else if even f then f else f + 1)"

definition gridUnit :: "nat \<Rightarrow> real \<Rightarrow> real" where
  "gridUnit p x = 2 powr of_int (\<lfloor>log 2 \<bar>x\<bar>\<rfloor> - int p + 1)"

definition roundTo :: "nat \<Rightarrow> real \<Rightarrow> real" where
  "roundTo p x = (if x = 0 then 0 else gridUnit p x * of_int (rne (x / gridUnit p x)))"

text \<open>The result of an operation on \<^verbatim>\<open>number\<close>s, as the double it is.\<close>

fun roundDouble :: "number \<Rightarrow> number" where
  "roundDouble (Fin x) = Fin (roundTo 53 x)"
| "roundDouble a = a"

text \<open>\<^verbatim>\<open>Math.fround\<close>: the value that a store into a \<^verbatim>\<open>Float32Array\<close> keeps.\<close>

fun Math_fround :: "number \<Rightarrow> number" where
  "Math_fround (Fin x) = Fin (roundTo 24 x)"
| "Math_fround a = a"

section \<open>Vectors: the \<^verbatim>\<open>vec3\<close> and \<^verbatim>\<open>mat3\<close> functions of gl-matrix\<close>

text \<open>
  gl-matrix is an external library. The functions the program calls are modelled from
  the library's source: each writes its result to the \<^verbatim>\<open>out\<close> argument and returns
  it, which the model renders as returning the value. \<^verbatim>\<open>vec3.normalize\<close> scales by the
  inverse length only when the squared length is positive, so it maps the zero vector to
  itself. The library stores a vector it creates in a \<^verbatim>\<open>Float32Array\<close>; the rounding to
  single precision is modelled where \<open>tonemapReinhard\<close> creates its result, and nowhere
  else.
\<close>

type_synonym vec3 = "number \<times> number \<times> number"

type_synonym mat3 = "vec3 \<times> vec3 \<times> vec3"

definition vec3_create :: vec3 where
  "vec3_create = (Fin 0, Fin 0, Fin 0)"

definition vec3_fromValues :: "number \<Rightarrow> number \<Rightarrow> number \<Rightarrow> vec3" where
  "vec3_fromValues x y z = (x, y, z)"

fun vec3_add :: "vec3 \<Rightarrow> vec3 \<Rightarrow> vec3" where
  "vec3_add (a0, a1, a2) (b0, b1, b2) = (a0 + b0, a1 + b1, a2 + b2)"

fun vec3_subtract :: "vec3 \<Rightarrow> vec3 \<Rightarrow> vec3" where
  "vec3_subtract (a0, a1, a2) (b0, b1, b2) = (a0 - b0, a1 - b1, a2 - b2)"

fun vec3_multiply :: "vec3 \<Rightarrow> vec3 \<Rightarrow> vec3" where
  "vec3_multiply (a0, a1, a2) (b0, b1, b2) = (a0 * b0, a1 * b1, a2 * b2)"

fun vec3_scale :: "vec3 \<Rightarrow> number \<Rightarrow> vec3" where
  "vec3_scale (a0, a1, a2) b = (a0 * b, a1 * b, a2 * b)"

fun vec3_scaleAndAdd :: "vec3 \<Rightarrow> vec3 \<Rightarrow> number \<Rightarrow> vec3" where
  "vec3_scaleAndAdd (a0, a1, a2) (b0, b1, b2) s = (a0 + b0 * s, a1 + b1 * s, a2 + b2 * s)"

fun vec3_dot :: "vec3 \<Rightarrow> vec3 \<Rightarrow> number" where
  "vec3_dot (a0, a1, a2) (b0, b1, b2) = a0 * b0 + a1 * b1 + a2 * b2"

fun vec3_sqrLen :: "vec3 \<Rightarrow> number" where
  "vec3_sqrLen (x, y, z) = x * x + y * y + z * z"

fun vec3_cross :: "vec3 \<Rightarrow> vec3 \<Rightarrow> vec3" where
  "vec3_cross (ax, ay, az) (bx, by, bz) =
     (ay * bz - az * by, az * bx - ax * bz, ax * by - ay * bx)"

fun vec3_normalize :: "vec3 \<Rightarrow> vec3" where
  "vec3_normalize (x, y, z) =
     (let len = (x * x + y * y + z * z :: number);
          len' = (if Fin 0 < len then Fin 1 / Math_sqrt len else len)
      in (x * len', y * len', z * len'))"

text \<open>A \<^verbatim>\<open>mat3\<close> is column-major: its three columns, in order.\<close>

definition mat3_fromValues ::
  "number \<Rightarrow> number \<Rightarrow> number \<Rightarrow> number \<Rightarrow> number \<Rightarrow> number \<Rightarrow> number \<Rightarrow> number \<Rightarrow> number \<Rightarrow> mat3"
where
  "mat3_fromValues m00 m01 m02 m10 m11 m12 m20 m21 m22 =
     ((m00, m01, m02), (m10, m11, m12), (m20, m21, m22))"

fun vec3_transformMat3 :: "vec3 \<Rightarrow> mat3 \<Rightarrow> vec3" where
  "vec3_transformMat3 (x, y, z) ((m0, m1, m2), (m3, m4, m5), (m6, m7, m8)) =
     (x * m0 + y * m3 + z * m6, x * m1 + y * m4 + z * m7, x * m2 + y * m5 + z * m8)"

section \<open>The scene (scene.ts)\<close>

record camera =
  fovY :: number

record material =
  albedo :: vec3

record light =
  radiantPower :: number
  position :: vec3

record sphere =
  radius :: number
  position :: vec3
  material :: string

text \<open>\<^verbatim>\<open>Object3D = Geometry | Light\<close>, told apart by the \<^verbatim>\<open>type\<close> tag.\<close>

datatype object3D = Sphere sphere | Light light

text \<open>
  \<^verbatim>\<open>materials\<close> is a plain JavaScript object used as a dictionary: the map holds its own
  properties. Reading \<^verbatim>\<open>scene.materials[name]\<close> also finds what a plain object inherits
  from \<^verbatim>\<open>Object.prototype\<close> (main.ts builds the scene with \<^verbatim>\<open>JSON.parse\<close> or an object
  literal), and every inherited value is truthy and has no \<^verbatim>\<open>albedo\<close>.
\<close>

record scene =
  camera :: camera
  materials :: "string \<rightharpoonup> material"
  objects :: "object3D list"

definition Object_prototype_names :: "string list" where
  "Object_prototype_names =
     [''constructor'', ''__defineGetter__'', ''__defineSetter__'', ''hasOwnProperty'',
      ''__lookupGetter__'', ''__lookupSetter__'', ''isPrototypeOf'',
      ''propertyIsEnumerable'', ''toString'', ''valueOf'', ''__proto__'',
      ''toLocaleString'']"

datatype 'v property = Undefined | Inherited | Own 'v

definition Object_get :: "(string \<rightharpoonup> 'v) \<Rightarrow> string \<Rightarrow> 'v property" where
  "Object_get obj name =
     (case obj name of
        Some v \<Rightarrow> Own v
      | None \<Rightarrow> if name \<in> set Object_prototype_names then Inherited else Undefined)"

text \<open>Reading from \<^verbatim>\<open>undefined\<close> raises; nothing else in the program does.\<close>

datatype js_error = TypeError

section \<open>Geometry and collision (collision.ts)\<close>

definition X :: vec3 where
  "X = vec3_fromValues (Fin 1) (Fin 0) (Fin 0)"

definition Y :: vec3 where
  "Y = vec3_fromValues (Fin 0) (Fin 1) (Fin 0)"

record contact =
  position :: vec3
  normal :: vec3
  geometry :: sphere

record ray =
  origin :: vec3
  direction :: vec3

record seg =
  start :: vec3
  end' :: vec3

definition raySphereT :: "ray \<Rightarrow> sphere \<Rightarrow> number option" where
  "raySphereT ray sphere =
     (let oc = vec3_subtract (origin ray) (sphere.position sphere);
          a = vec3_sqrLen (direction ray);
          b = Fin 2 * vec3_dot oc (direction ray);
          c = vec3_sqrLen oc - radius sphere * radius sphere;
          discriminant = b * b - Fin 4 * a * c
      in if discriminant < Fin 0 then None
         else Some ((- b - Math_sqrt discriminant) / (Fin 2 * a)))"

definition intersectRaySphere :: "ray \<Rightarrow> sphere \<Rightarrow> contact option" where
  "intersectRaySphere ray sphere =
     (case raySphereT ray sphere of
        None \<Rightarrow> None
      | Some t \<Rightarrow>
          if t < Fin 0 then None
          else
            let position = vec3_scaleAndAdd (origin ray) (direction ray) t;
                normal = vec3_normalize (vec3_subtract position (sphere.position sphere))
            in Some \<lparr>position = position, normal = normal, geometry = sphere\<rparr>)"

definition intersectSegSphere :: "seg \<Rightarrow> sphere \<Rightarrow> contact option" where
  "intersectSegSphere seg sphere =
     (let ray = \<lparr>origin = start seg, direction = vec3_subtract (end' seg) (start seg)\<rparr>
      in case raySphereT ray sphere of
           None \<Rightarrow> None
         | Some t \<Rightarrow>
             if t < Fin 0 \<or> Fin 1 < t then None
             else
               let position =
                     vec3_scaleAndAdd (start seg) (vec3_subtract (end' seg) (start seg)) t;
                   normal = vec3_normalize (vec3_subtract position (sphere.position sphere))
               in Some \<lparr>position = position, normal = normal, geometry = sphere\<rparr>)"

definition closestTo :: "vec3 \<Rightarrow> contact \<Rightarrow> contact \<Rightarrow> number" where
  "closestTo point a b =
     (let distA = vec3_sqrLen (vec3_subtract (contact.position a) point);
          distB = vec3_sqrLen (vec3_subtract (contact.position b) point)
      in distA - distB)"

definition cosineWeightedHemisphereSampleZ :: "(nat \<Rightarrow> real) \<Rightarrow> nat \<Rightarrow> vec3 \<times> nat" where
  "cosineWeightedHemisphereSampleZ rnd k =
     (let (u1, k1) = Math_random rnd k;
          r = Math_sqrt u1;
          (u2, k2) = Math_random rnd k1;
          theta = u2 * Fin 2 * Math_PI;
          x = r * Math_cos theta;
          y = r * Math_sin theta;
          z = Math_sqrt (Math_max (Fin 0) (Fin 1 - x * x - y * y))
      in (vec3_fromValues x y z, k2))"

definition arbitraryBasis :: "vec3 \<Rightarrow> mat3" where
  "arbitraryBasis z =
     (let ref = (if Math_abs (fst (snd z)) < Fin (9 / 10) then Y else X);
          x = vec3_normalize (vec3_cross z ref);
          y = vec3_cross z x
      in mat3_fromValues (fst x) (fst (snd x)) (snd (snd x))
                         (fst y) (fst (snd y)) (snd (snd y))
                         (fst z) (fst (snd z)) (snd (snd z)))"

definition cosineWeightedHemisphereSample :: "vec3 \<Rightarrow> (nat \<Rightarrow> real) \<Rightarrow> nat \<Rightarrow> vec3 \<times> nat" where
  "cosineWeightedHemisphereSample normal' rnd k =
     (let (sampleDir, k') = cosineWeightedHemisphereSampleZ rnd k;
          basis = arbitraryBasis normal'
      in (vec3_transformMat3 sampleDir basis, k'))"

text \<open>
  \<^verbatim>\<open>Array.prototype.sort\<close> with a comparator is stable: an element moves behind another
  only when the comparator is positive. With a comparator that is not a consistent order
  (one that returns \<open>NaN\<close>) the standard leaves the order to the engine; the model keeps
  the insertion sort's.
\<close>

fun insertBy :: "('a \<Rightarrow> 'a \<Rightarrow> number) \<Rightarrow> 'a \<Rightarrow> 'a list \<Rightarrow> 'a list" where
  "insertBy cmp x [] = [x]"
| "insertBy cmp x (y # ys) = (if Fin 0 < cmp x y then y # insertBy cmp x ys else x # y # ys)"

definition Array_sort :: "('a \<Rightarrow> 'a \<Rightarrow> number) \<Rightarrow> 'a list \<Rightarrow> 'a list" where
  "Array_sort cmp xs = foldr (insertBy cmp) xs []"

section \<open>Shading (shading.ts)\<close>

record dimensions =
  width :: number
  height :: number

record viewport =
  imagePlaneWidth :: number
  imagePlaneHeight :: number
  dims :: dimensions

text \<open>The constructor of the \<^verbatim>\<open>Viewport\<close> class.\<close>

definition Viewport :: "dimensions \<Rightarrow> camera \<Rightarrow> viewport" where
  "Viewport dims' camera' =
     (let aspectRatio = width dims' / height dims';
          imagePlaneHeight = Fin 2 * Math_tan (fovY camera' / Fin 2);
          imagePlaneWidth = imagePlaneHeight * aspectRatio
      in \<lparr>imagePlaneWidth = imagePlaneWidth, imagePlaneHeight = imagePlaneHeight,
           dims = dims'\<rparr>)"

definition rayForPixel :: "viewport \<Rightarrow> number \<Rightarrow> number \<Rightarrow> ray" where
  "rayForPixel this x y =
     (let pixelScreenX = (Fin 2 * x + Fin 1) / width (dims this) - Fin 1;
          pixelScreenY = Fin 1 - (Fin 2 * y + Fin 1) / height (dims this);
          pixelWorldX = pixelScreenX * (imagePlaneWidth this / Fin 2);
          pixelWorldY = pixelScreenY * (imagePlaneHeight this / Fin 2)
      in \<lparr>origin = vec3_create,
           direction = vec3_fromValues pixelWorldX pixelWorldY (Fin (- 1))\<rparr>)"

definition lambertTerm :: "vec3 \<Rightarrow> vec3 \<Rightarrow> material \<Rightarrow> vec3" where
  "lambertTerm toLight normal' material' =
     vec3_scale (vec3_scale (albedo material') (Fin 1 / Math_PI))
                (Math_max (vec3_dot toLight normal') (Fin 0))"

definition evaluatePointLight :: "light \<Rightarrow> contact \<Rightarrow> material \<Rightarrow> vec3" where
  "evaluatePointLight light contact material' =
     (let toLight = vec3_subtract (light.position light) (contact.position contact);
          falloff = Fin 1 / vec3_sqrLen toLight;
          lightIntensity = radiantPower light / (Fin 4 * Math_PI);
          irradiance = lightIntensity * falloff;
          brdfCosine = lambertTerm (vec3_normalize toLight) (normal contact) material'
      in vec3_scale brdfCosine irradiance)"

text \<open>
  \<open>tonemapReinhard\<close> is modelled with its rounding: the sum \<open>1 + c\<close> and the quotient are
  double operations, and \<^verbatim>\<open>vec3.fromValues\<close> stores the quotient in a \<^verbatim>\<open>Float32Array\<close>.
\<close>

definition tonemapReinhard :: "vec3 \<Rightarrow> vec3" where
  "tonemapReinhard color =
     vec3_fromValues
       (Math_fround (roundDouble (fst color / roundDouble (Fin 1 + fst color))))
       (Math_fround (roundDouble (fst (snd color) / roundDouble (Fin 1 + fst (snd color)))))
       (Math_fround (roundDouble (snd (snd color) / roundDouble (Fin 1 + snd (snd color)))))"

section \<open>The path tracer (trace.ts)\<close>

text \<open>
  \<^verbatim>\<open>hit.geometry\<close> is a reference to an element of \<^verbatim>\<open>scene.objects\<close>, and the shadow test
  leaves out the sphere that is that very object (\<^verbatim>\<open>o !== hit.geometry\<close>). A reference
  is modelled by the element's index in \<^verbatim>\<open>scene.objects\<close>.
\<close>

definition spheresOf :: "scene \<Rightarrow> (nat \<times> sphere) list" where
  "spheresOf scene' =
     concat (map (\<lambda>(i, o'). case o' of Sphere s \<Rightarrow> [(i, s)] | Light _ \<Rightarrow> [])
                 (enumerate 0 (objects scene')))"

definition lightsOf :: "scene \<Rightarrow> light list" where
  "lightsOf scene' =
     concat (map (\<lambda>o'. case o' of Light l \<Rightarrow> [l] | Sphere _ \<Rightarrow> []) (objects scene'))"

text \<open>The ray's contacts, each with the reference to its sphere, nearest first.\<close>

definition rayHits :: "ray \<Rightarrow> scene \<Rightarrow> (nat \<times> contact) list" where
  "rayHits ray scene' =
     Array_sort (\<lambda>a b. closestTo (origin ray) (snd a) (snd b))
       (concat (map (\<lambda>(i, sphere).
                       case intersectRaySphere ray sphere of
                         Some contact \<Rightarrow> [(i, contact)]
                       | None \<Rightarrow> [])
                    (spheresOf scene')))"

definition occluded :: "scene \<Rightarrow> nat \<Rightarrow> contact \<Rightarrow> light \<Rightarrow> bool" where
  "occluded scene' g hit light =
     (let shadowSeg = \<lparr>start = contact.position hit, end' = light.position light\<rparr>
      in list_ex (\<lambda>(i, sphere). intersectSegSphere shadowSeg sphere \<noteq> None)
           (filter (\<lambda>(i, sphere). i \<noteq> g) (spheresOf scene')))"

text \<open>
  \<^verbatim>\<open>material.albedo\<close> of a value found on the prototype is \<^verbatim>\<open>undefined\<close>, and both uses
  of the albedo index into it: \<^verbatim>\<open>vec3.scale\<close> in \<^verbatim>\<open>lambertTerm\<close> and \<^verbatim>\<open>vec3.multiply\<close> in
  the indirect loop. \<open>mapE\<close> is \<^verbatim>\<open>Array.prototype.map\<close> with a callback that may raise: the
  first exception ends the whole call.
\<close>

fun mapE :: "('a \<Rightarrow> js_error + 'b) \<Rightarrow> 'a list \<Rightarrow> js_error + 'b list" where
  "mapE f [] = Inr []"
| "mapE f (x # xs) =
     (case f x of
        Inl e \<Rightarrow> Inl e
      | Inr y \<Rightarrow> (case mapE f xs of Inl e \<Rightarrow> Inl e | Inr ys \<Rightarrow> Inr (y # ys)))"

definition directLight ::
  "scene \<Rightarrow> nat \<Rightarrow> contact \<Rightarrow> material property \<Rightarrow> js_error + vec3"
where
  "directLight scene' g hit material' =
     (case mapE (\<lambda>light.
                   if occluded scene' g hit light then Inr vec3_create
                   else (case material' of
                           Own m \<Rightarrow> Inr (evaluatePointLight light hit m)
                         | _ \<Rightarrow> Inl TypeError))
                (lightsOf scene') of
        Inl e \<Rightarrow> Inl e
      | Inr xs \<Rightarrow> Inr (foldl vec3_add vec3_create xs))"

text \<open>
  The loop over the indirect samples. \<open>trace\<close> is one trial (the sampled ray, traced one
  level deeper) and \<open>weigh\<close> the product with the albedo.
\<close>

lemma loop_bound: "real i < s \<Longrightarrow> i < nat \<lceil>s\<rceil>"
proof -
  assume "real i < s"
  then have "int i < \<lceil>s\<rceil>"
    by (simp add: less_ceiling_iff)
  then show ?thesis
    by linarith
qed

function indirectLoop ::
  "(nat \<Rightarrow> js_error + vec3 option \<times> nat) \<Rightarrow> (vec3 \<Rightarrow> js_error + vec3) \<Rightarrow> real \<Rightarrow> nat \<Rightarrow>
   vec3 \<Rightarrow> nat \<Rightarrow> js_error + vec3 \<times> nat"
where
  "indirectLoop trace weigh indirectSamples i indirectLight k =
     (if real i < indirectSamples then
        (case trace k of
           Inl e \<Rightarrow> Inl e
         | Inr (None, k') \<Rightarrow> indirectLoop trace weigh indirectSamples (Suc i) indirectLight k'
         | Inr (Some incomingRadiance, k') \<Rightarrow>
             (case weigh incomingRadiance of
                Inl e \<Rightarrow> Inl e
              | Inr contribution \<Rightarrow>
                  indirectLoop trace weigh indirectSamples (Suc i)
                    (vec3_add indirectLight contribution) k'))
      else Inr (indirectLight, k))"
  by pat_completeness auto
termination
  by (relation "measure (\<lambda>(trace, weigh, indirectSamples, i, indirectLight, k).
                  nat \<lceil>indirectSamples\<rceil> - i)")
     (auto dest!: loop_bound)

lemma indirectLoop_cong [fundef_cong]:
  assumes "\<And>k. trace k = trace' k" and "weigh = weigh'" and "s = s'" and "i = i'"
    and "acc = acc'" and "k = k'"
  shows "indirectLoop trace weigh s i acc k = indirectLoop trace' weigh' s' i' acc' k'"
proof -
  from assms(1) have "trace = trace'"
    by (rule ext)
  with assms show ?thesis
    by simp
qed

text \<open>
  \<open>depth\<close> and \<open>indirectSamples\<close> are finite numbers (the driver passes the command
  line's integers). \<open>radianceForRay\<close> returns the radiance or \<open>None\<close> for \<^verbatim>\<open>null\<close>,
  and the index of the next random draw.
\<close>

function radianceForRay ::
  "ray \<Rightarrow> scene \<Rightarrow> real \<Rightarrow> real \<Rightarrow> (nat \<Rightarrow> real) \<Rightarrow> nat \<Rightarrow> js_error + vec3 option \<times> nat"
where
  "radianceForRay ray scene' depth indirectSamples rnd k =
     (if depth \<le> 0 then Inr (None, k)
      else
        (case rayHits ray scene' of
           [] \<Rightarrow> Inr (None, k)
         | (g, hit) # _ \<Rightarrow>
             (case Object_get (materials scene') (material (geometry hit)) of
                Undefined \<Rightarrow> Inr (None, k)
              | material' \<Rightarrow>
                  (case directLight scene' g hit material' of
                     Inl e \<Rightarrow> Inl e
                   | Inr directLight' \<Rightarrow>
                       (case indirectLoop
                               (\<lambda>k. let (indirectDir, k') =
                                            cosineWeightedHemisphereSample (normal hit) rnd k;
                                         indirectOrigin =
                                            vec3_scaleAndAdd (contact.position hit) (normal hit)
                                              (Fin (1 / 1000));
                                         indirectRay =
                                            \<lparr>origin = indirectOrigin, direction = indirectDir\<rparr>
                                     in radianceForRay indirectRay scene' (depth - 1)
                                          indirectSamples rnd k')
                               (\<lambda>incomingRadiance.
                                  case material' of
                                    Own m \<Rightarrow> Inr (vec3_multiply (albedo m) incomingRadiance)
                                  | _ \<Rightarrow> Inl TypeError)
                               indirectSamples 0 vec3_create k of
                          Inl e \<Rightarrow> Inl e
                        | Inr (indirectLight, k') \<Rightarrow>
                            Inr (Some (vec3_add directLight'
                                         (vec3_scale indirectLight
                                            (Fin 1 / Fin indirectSamples))), k'))))))"
  by pat_completeness auto
termination
  by (relation "measure (\<lambda>(ray, scene', depth, indirectSamples, rnd, k). nat \<lceil>depth\<rceil>)")
     auto

declare indirectLoop.simps [simp del] radianceForRay.simps [simp del]

section \<open>Finite vectors\<close>

text \<open>
  The properties below are stated for finite inputs: a vector of reals, taken into the
  program's numbers by \<open>fin3\<close>. The operations on real vectors are the ones the
  specification's formulas are written with; the lemmas show that the program's
  operations agree with them on finite vectors.
\<close>

type_synonym rvec = "real \<times> real \<times> real"

fun fin3 :: "rvec \<Rightarrow> vec3" where
  "fin3 (x, y, z) = (Fin x, Fin y, Fin z)"

fun add_r :: "rvec \<Rightarrow> rvec \<Rightarrow> rvec" where
  "add_r (a0, a1, a2) (b0, b1, b2) = (a0 + b0, a1 + b1, a2 + b2)"

fun sub_r :: "rvec \<Rightarrow> rvec \<Rightarrow> rvec" where
  "sub_r (a0, a1, a2) (b0, b1, b2) = (a0 - b0, a1 - b1, a2 - b2)"

fun scale_r :: "rvec \<Rightarrow> real \<Rightarrow> rvec" where
  "scale_r (a0, a1, a2) s = (a0 * s, a1 * s, a2 * s)"

fun dot_r :: "rvec \<Rightarrow> rvec \<Rightarrow> real" where
  "dot_r (a0, a1, a2) (b0, b1, b2) = a0 * b0 + a1 * b1 + a2 * b2"

definition normalize_r :: "rvec \<Rightarrow> rvec" where
  "normalize_r v = (if 0 < dot_r v v then scale_r v (1 / sqrt (dot_r v v)) else (0, 0, 0))"

fun cross_r :: "rvec \<Rightarrow> rvec \<Rightarrow> rvec" where
  "cross_r (ax, ay, az) (bx, by, bz) = (ay * bz - az * by, az * bx - ax * bz, ax * by - ay * bx)"

text \<open>
  The quadratic of a ray \<open>orig + t * d\<close> and a sphere of centre \<open>c\<close> and radius \<open>r\<close>, in
  the specification's words: \<open>oc = orig - c\<close>, \<open>a = d \<cdot> d\<close>, \<open>b = 2 (oc \<cdot> d)\<close>,
  \<open>cc = oc \<cdot> oc - r\<^sup>2\<close>, its discriminant \<open>b\<^sup>2 - 4 a cc\<close> and its near root.
\<close>

definition discriminant_r :: "rvec \<Rightarrow> rvec \<Rightarrow> rvec \<Rightarrow> real \<Rightarrow> real" where
  "discriminant_r orig d c r =
     (let oc = sub_r orig c; a = dot_r d d; b = 2 * dot_r oc d; cc = dot_r oc oc - r * r
      in b * b - 4 * a * cc)"

definition nearRoot_r :: "rvec \<Rightarrow> rvec \<Rightarrow> rvec \<Rightarrow> real \<Rightarrow> real" where
  "nearRoot_r orig d c r =
     (let oc = sub_r orig c; a = dot_r d d; b = 2 * dot_r oc d
      in (- b - sqrt (discriminant_r orig d c r)) / (2 * a))"

text \<open>The ray that \<open>intersectSegSphere\<close> forms from a segment.\<close>

definition rayOfSeg :: "seg \<Rightarrow> ray" where
  "rayOfSeg seg = \<lparr>origin = start seg, direction = vec3_subtract (end' seg) (start seg)\<rparr>"

text \<open>
  Malley's method in the specification's words: the disk point \<open>r = \<surd>u1\<close>,
  \<open>\<theta> = 2 \<pi> u2\<close>, lifted by \<open>z = \<surd>max(0, 1 - x\<^sup>2 - y\<^sup>2)\<close>; the basis whose Z axis is \<open>n\<close>,
  with reference axis Y when \<open>|n\<^sub>y| < 0.9\<close> and X otherwise; and the sample taken into
  that basis.
\<close>

definition sampleZ_r :: "real \<Rightarrow> real \<Rightarrow> rvec" where
  "sampleZ_r u1 u2 =
     (let r = sqrt u1; theta = u2 * 2 * pi; x = r * cos theta; y = r * sin theta
      in (x, y, sqrt (max 0 (1 - x * x - y * y))))"

definition basis_r :: "rvec \<Rightarrow> rvec \<times> rvec \<times> rvec" where
  "basis_r n =
     (let ref = (if \<bar>fst (snd n)\<bar> < 9 / 10 then (0, 1, 0) else (1, 0, 0));
          bx = normalize_r (cross_r n ref);
          cy = cross_r n bx
      in (bx, cy, n))"

definition sample_r :: "rvec \<Rightarrow> real \<Rightarrow> real \<Rightarrow> rvec" where
  "sample_r n u1 u2 =
     (case (sampleZ_r u1 u2, basis_r n) of
        ((x, y, z), (bx, cy, bz)) \<Rightarrow>
          add_r (add_r (scale_r bx x) (scale_r cy y)) (scale_r bz z))"

text \<open>
  A double, or for \<open>p = 24\<close> a single-precision number: an integer of at most \<open>p\<close> bits
  times a power of two. \<open>reinhard_r\<close> is the specification's channel map \<open>c / (1 + c)\<close>
  computed in double precision and stored in single precision.
\<close>

definition representable :: "nat \<Rightarrow> real \<Rightarrow> bool" where
  "representable p c = (\<exists>m k :: int. c = of_int m * 2 powr of_int k \<and> \<bar>m\<bar> < 2 ^ p)"

definition reinhard_r :: "real \<Rightarrow> real" where
  "reinhard_r c = roundTo 24 (roundTo 53 (c / roundTo 53 (1 + c)))"

text \<open>
  Well-formed input, in the specification's sense. Every number of the scene is finite;
  no sphere has radius 0 and no light lies on the surface of a sphere (the light's squared
  distance from the centre is not the squared radius); and a ray has a finite origin and
  a finite direction that is not the zero vector.
\<close>

fun Number_isFinite :: "number \<Rightarrow> bool" where
  "Number_isFinite (Fin x) = True"
| "Number_isFinite _ = False"

fun toReal :: "number \<Rightarrow> real" where
  "toReal (Fin x) = x"
| "toReal _ = 0"

fun finite3 :: "vec3 \<Rightarrow> bool" where
  "finite3 (x, y, z) = (Number_isFinite x \<and> Number_isFinite y \<and> Number_isFinite z)"

fun real3 :: "vec3 \<Rightarrow> rvec" where
  "real3 (x, y, z) = (toReal x, toReal y, toReal z)"

definition finiteScene :: "scene \<Rightarrow> bool" where
  "finiteScene scene' =
     ((\<forall>m \<in> ran (materials scene'). finite3 (albedo m)) \<and>
      (\<forall>s. Sphere s \<in> set (objects scene') \<longrightarrow>
         finite3 (sphere.position s) \<and> Number_isFinite (radius s)) \<and>
      (\<forall>l. Light l \<in> set (objects scene') \<longrightarrow>
         finite3 (light.position l) \<and> Number_isFinite (radiantPower l)))"

definition nonDegenerate :: "scene \<Rightarrow> bool" where
  "nonDegenerate scene' =
     ((\<forall>s. Sphere s \<in> set (objects scene') \<longrightarrow> radius s \<noteq> Fin 0) \<and>
      (\<forall>l s. Light l \<in> set (objects scene') \<longrightarrow> Sphere s \<in> set (objects scene') \<longrightarrow>
         vec3_sqrLen (vec3_subtract (light.position l) (sphere.position s)) \<noteq>
         radius s * radius s))"

definition properRay :: "ray \<Rightarrow> bool" where
  "properRay ray =
     (finite3 (origin ray) \<and> finite3 (direction ray) \<and>
      direction ray \<noteq> (Fin 0, Fin 0, Fin 0))"

text \<open>A finite number that is not negative, and a vector of such numbers.\<close>

fun finiteNonNegative :: "number \<Rightarrow> bool" where
  "finiteNonNegative (Fin x) = (0 \<le> x)"
| "finiteNonNegative _ = False"

fun finiteNonNegative3 :: "vec3 \<Rightarrow> bool" where
  "finiteNonNegative3 (x, y, z) =
     (finiteNonNegative x \<and> finiteNonNegative y \<and> finiteNonNegative z)"

subsection \<open>The end-to-end scenario\<close>

text \<open>
  The specification's scenario: one sphere of centre \<open>(0, 0, -3)\<close> and radius 1 whose
  material is pure red, one light of radiant power 1000, and the ray from the origin down
  the view axis. The sphere's material name and the light's position are parameters, and
  \<open>scenarioHit\<close> is the ray's contact with the sphere.
\<close>

definition red :: material where
  "red = \<lparr>albedo = (Fin 1, Fin 0, Fin 0)\<rparr>"

definition scenarioSphere :: "string \<Rightarrow> sphere" where
  "scenarioSphere name =
     \<lparr>radius = Fin 1, position = (Fin 0, Fin 0, Fin (- 3)), material = name\<rparr>"

definition scenarioLight :: "vec3 \<Rightarrow> light" where
  "scenarioLight p = \<lparr>radiantPower = Fin 1000, position = p\<rparr>"

definition scenarioScene :: "string \<Rightarrow> vec3 \<Rightarrow> scene" where
  "scenarioScene name p =
     \<lparr>camera = \<lparr>fovY = Fin 1\<rparr>,
      materials = [''red'' \<mapsto> red],
      objects = [Sphere (scenarioSphere name), Light (scenarioLight p)]\<rparr>"

definition scenarioRay :: ray where
  "scenarioRay = \<lparr>origin = (Fin 0, Fin 0, Fin 0), direction = (Fin 0, Fin 0, Fin (- 1))\<rparr>"

definition scenarioHit :: "string \<Rightarrow> contact" where
  "scenarioHit name =
     \<lparr>position = (Fin 0, Fin 0, Fin (- 2)), normal = (Fin 0, Fin 0, Fin 1),
      geometry = scenarioSphere name\<rparr>"

section \<open>Arithmetic on finite numbers\<close>

lemma Fin_minus [simp]: "Fin a - Fin b = Fin (a - b)"
  by (simp add: minus_number_def)

lemma NaN_absorbs [simp]:
  "a + NaN = NaN" "NaN + a = NaN" "a - NaN = NaN" "NaN - a = NaN"
  "a * NaN = NaN" "NaN * a = NaN" "a / NaN = NaN" "NaN / a = NaN"
  "\<not> a < NaN" "\<not> NaN < a" "\<not> a \<le> NaN" "\<not> NaN \<le> a"
  by (cases a; simp add: minus_number_def less_eq_number_def)+

lemma dot_r_self_pos: "v \<noteq> (0, 0, 0) \<Longrightarrow> 0 < dot_r v v"
proof (cases v)
  case (fields x y z)
  assume "v \<noteq> (0, 0, 0)"
  with fields have "x \<noteq> 0 \<or> y \<noteq> 0 \<or> z \<noteq> 0"
    by simp
  then have "0 < x * x + y * y + z * z"
    by (metis add_pos_nonneg add_nonneg_pos zero_le_square not_real_square_gt_zero add_nonneg_nonneg)
  with fields show ?thesis
    by simp
qed

lemma vec3_subtract_fin3 [simp]: "vec3_subtract (fin3 a) (fin3 b) = fin3 (sub_r a b)"
  by (cases a; cases b) simp

lemma vec3_add_fin3 [simp]: "vec3_add (fin3 a) (fin3 b) = fin3 (add_r a b)"
  by (cases a; cases b) simp

lemma vec3_scale_fin3 [simp]: "vec3_scale (fin3 a) (Fin s) = fin3 (scale_r a s)"
  by (cases a) simp

lemma vec3_scaleAndAdd_fin3 [simp]:
  "vec3_scaleAndAdd (fin3 a) (fin3 b) (Fin s) = fin3 (add_r a (scale_r b s))"
  by (cases a; cases b) simp

lemma vec3_dot_fin3 [simp]: "vec3_dot (fin3 a) (fin3 b) = Fin (dot_r a b)"
  by (cases a; cases b) simp

lemma vec3_sqrLen_fin3 [simp]: "vec3_sqrLen (fin3 a) = Fin (dot_r a a)"
  by (cases a) simp

lemma vec3_normalize_fin3 [simp]: "vec3_normalize (fin3 v) = fin3 (normalize_r v)"
proof (cases v)
  case (fields x y z)
  have "0 \<le> x * x + y * y + z * z"
    by (simp add: add_nonneg_nonneg)
  moreover have "x = 0 \<and> y = 0 \<and> z = 0" if "\<not> 0 < x * x + y * y + z * z"
    using that dot_r_self_pos [of "(x, y, z)"] by auto
  ultimately show ?thesis
    using fields by (auto simp: normalize_r_def Let_def)
qed

lemma sqrt_9: "sqrt 9 = 3"
  using real_sqrt_abs [of 3] by simp

lemma Math_max_Fin [simp]: "Math_max (Fin a) (Fin b) = Fin (max a b)"
  by (simp add: max_def)

lemma Fin_0_add [simp]: "Fin 0 + a = a" "a + Fin 0 = a"
  by (cases a; simp)+

lemma vec3_add_create: "vec3_add vec3_create v = v" "vec3_add v vec3_create = v"
  by (cases v; simp add: vec3_create_def)+

lemma vec3_scale_create: "vec3_scale vec3_create (Fin s) = vec3_create"
  by (simp add: vec3_create_def)

lemma vec3_cross_fin3 [simp]: "vec3_cross (fin3 a) (fin3 b) = fin3 (cross_r a b)"
  by (cases a; cases b) simp

section \<open>Ray and segment against a sphere\<close>

lemma raySphereT_fin:
  assumes "d \<noteq> (0, 0, 0)"
  shows "raySphereT \<lparr>origin = fin3 orig, direction = fin3 d\<rparr>
           \<lparr>radius = Fin r, position = fin3 c, material = m\<rparr> =
         (if discriminant_r orig d c r < 0 then None else Some (Fin (nearRoot_r orig d c r)))"
proof -
  from assms have "0 < dot_r d d"
    by (rule dot_r_self_pos)
  then show ?thesis
    by (simp add: raySphereT_def discriminant_r_def nearRoot_r_def Let_def)
qed

text \<open>
  Claim C4. For a ray with finite origin and finite non-zero direction and a sphere with
  finite centre and radius, \<open>raySphereT\<close> returns \<open>None\<close> exactly when the discriminant
  \<open>b\<^sup>2 - 4 a cc\<close> is negative, and otherwise the near root \<open>(- b - \<surd>discriminant) / (2 a)\<close>
  whatever its sign; \<open>intersectRaySphere\<close> returns \<open>None\<close> exactly when there is no root or
  the root is negative, and otherwise the contact with position \<open>origin + t * direction\<close>,
  normal \<open>normalize (position - centre)\<close> and the sphere as geometry.
\<close>

theorem raySphereT_near_root:
  assumes "d \<noteq> (0, 0, 0)"
  shows "raySphereT \<lparr>origin = fin3 orig, direction = fin3 d\<rparr>
           \<lparr>radius = Fin r, position = fin3 c, material = m\<rparr> =
         (if discriminant_r orig d c r < 0 then None else Some (Fin (nearRoot_r orig d c r)))
       \<and> intersectRaySphere \<lparr>origin = fin3 orig, direction = fin3 d\<rparr>
           \<lparr>radius = Fin r, position = fin3 c, material = m\<rparr> =
         (if discriminant_r orig d c r < 0 \<or> nearRoot_r orig d c r < 0 then None
          else Some \<lparr>position = fin3 (add_r orig (scale_r d (nearRoot_r orig d c r))),
                     normal = fin3 (normalize_r
                                (sub_r (add_r orig (scale_r d (nearRoot_r orig d c r))) c)),
                     geometry = \<lparr>radius = Fin r, position = fin3 c, material = m\<rparr>\<rparr>)"
  using raySphereT_fin [OF assms, of orig r c m]
  by (simp add: intersectRaySphere_def Let_def)

text \<open>
  The witness of C4: the ray from the origin down the view axis meets the unit sphere
  centred at \<open>(0, 0, -3)\<close> at \<open>t = 2\<close>, in \<open>(0, 0, -2)\<close>.
\<close>

theorem raySphereT_near_root_witness:
  "(0, 0, - 1) \<noteq> (0, 0, 0 :: real)
   \<and> raySphereT \<lparr>origin = fin3 (0, 0, 0), direction = fin3 (0, 0, - 1)\<rparr>
         \<lparr>radius = Fin 1, position = fin3 (0, 0, - 3), material = ''red''\<rparr> = Some (Fin 2)
   \<and> intersectRaySphere \<lparr>origin = fin3 (0, 0, 0), direction = fin3 (0, 0, - 1)\<rparr>
         \<lparr>radius = Fin 1, position = fin3 (0, 0, - 3), material = ''red''\<rparr> =
       Some \<lparr>position = fin3 (0, 0, - 2), normal = fin3 (0, 0, 1),
             geometry = \<lparr>radius = Fin 1, position = fin3 (0, 0, - 3), material = ''red''\<rparr>\<rparr>"
  using raySphereT_near_root [of "(0, 0, - 1)" "(0, 0, 0)" 1 "(0, 0, - 3)" "''red''"]
  by (simp add: discriminant_r_def nearRoot_r_def normalize_r_def)

text \<open>
  Claim C5, as amended. \<open>intersectSegSphere\<close> forms the ray with origin \<open>start\<close> and
  direction \<open>end - start\<close> and computes \<open>t\<close> with \<open>raySphereT\<close>. For a segment with finite,
  distinct endpoints it returns a contact exactly when \<open>t\<close> exists and \<open>0 \<le> t \<le> 1\<close>, both
  ends included. For a segment of length zero \<open>t\<close> is \<open>0 / 0 = NaN\<close>, neither \<open>t < 0\<close> nor
  \<open>t > 1\<close> holds, and a contact is returned, with \<open>NaN\<close> position and normal.
\<close>

theorem intersectSegSphere_cases:
  "raySphereT \<lparr>origin = fin3 s, direction = vec3_subtract (fin3 e) (fin3 s)\<rparr>
      \<lparr>radius = Fin r, position = fin3 c, material = m\<rparr> =
     (if s = e then Some NaN
      else if discriminant_r s (sub_r e s) c r < 0 then None
      else Some (Fin (nearRoot_r s (sub_r e s) c r)))
   \<and> intersectSegSphere \<lparr>start = fin3 s, end' = fin3 e\<rparr>
      \<lparr>radius = Fin r, position = fin3 c, material = m\<rparr> =
     (if s = e then
        Some \<lparr>position = (NaN, NaN, NaN), normal = (NaN, NaN, NaN),
              geometry = \<lparr>radius = Fin r, position = fin3 c, material = m\<rparr>\<rparr>
      else if discriminant_r s (sub_r e s) c r < 0 \<or> nearRoot_r s (sub_r e s) c r < 0
              \<or> 1 < nearRoot_r s (sub_r e s) c r then None
      else
        Some \<lparr>position = fin3 (add_r s (scale_r (sub_r e s) (nearRoot_r s (sub_r e s) c r))),
              normal = fin3 (normalize_r (sub_r (add_r s (scale_r (sub_r e s)
                               (nearRoot_r s (sub_r e s) c r))) c)),
              geometry = \<lparr>radius = Fin r, position = fin3 c, material = m\<rparr>\<rparr>)"
proof (cases "s = e")
  case True
  then show ?thesis
    by (cases e; cases c)
       (simp add: intersectSegSphere_def raySphereT_def Let_def signedInf_def)
next
  case False
  then have "sub_r e s \<noteq> (0, 0, 0)"
    by (cases s; cases e) auto
  from raySphereT_fin [OF this, of s r c m] False show ?thesis
    by (simp add: intersectSegSphere_def Let_def)
qed

text \<open>
  The counterexample to C5 as stated: for the segment from the origin to the origin,
  \<open>t\<close> exists and \<open>0 \<le> t \<le> 1\<close> is false, yet \<open>intersectSegSphere\<close> returns a contact.
\<close>

theorem zero_length_segment_contact:
  "raySphereT \<lparr>origin = fin3 (0, 0, 0), direction = vec3_subtract (fin3 (0, 0, 0)) (fin3 (0, 0, 0))\<rparr>
      \<lparr>radius = Fin 1, position = fin3 (0, 0, - 3), material = ''red''\<rparr> = Some NaN
   \<and> \<not> (Fin 0 \<le> NaN \<and> NaN \<le> Fin 1)
   \<and> intersectSegSphere \<lparr>start = fin3 (0, 0, 0), end' = fin3 (0, 0, 0)\<rparr>
      \<lparr>radius = Fin 1, position = fin3 (0, 0, - 3), material = ''red''\<rparr> =
     Some \<lparr>position = (NaN, NaN, NaN), normal = (NaN, NaN, NaN),
           geometry = \<lparr>radius = Fin 1, position = fin3 (0, 0, - 3), material = ''red''\<rparr>\<rparr>"
  by (simp add: intersectSegSphere_def raySphereT_def Let_def signedInf_def less_eq_number_def)

text \<open>
  Claim C9, as amended. For every segment and sphere, \<open>intersectSegSphere\<close> returns a
  contact exactly when \<open>intersectRaySphere\<close>, applied to the ray with origin \<open>start\<close> and
  direction \<open>end - start\<close>, returns one and the test \<open>t > 1\<close> fails; the contact it
  returns is then the one \<open>intersectRaySphere\<close> returns (equal position, normal and
  geometry). For a finite \<open>t\<close> the failing test is \<open>t \<le> 1\<close>; for \<open>t = NaN\<close> it is not.
\<close>

theorem intersectSegSphere_via_ray:
  "intersectSegSphere seg sphere =
     (case raySphereT (rayOfSeg seg) sphere of
        None \<Rightarrow> None
      | Some t \<Rightarrow> if Fin 1 < t then None else intersectRaySphere (rayOfSeg seg) sphere)
   \<and> (intersectSegSphere seg sphere = None
        \<or> intersectSegSphere seg sphere = intersectRaySphere (rayOfSeg seg) sphere)"
  by (simp add: intersectSegSphere_def intersectRaySphere_def rayOfSeg_def Let_def
      split: option.splits)

text \<open>
  The counterexample to C9 as stated: for the segment of length zero both functions
  return a contact, and the parameter \<open>t = NaN\<close> does not satisfy \<open>t \<le> 1\<close>.
\<close>

theorem zero_length_segment_not_le_1:
  "intersectSegSphere \<lparr>start = fin3 (0, 0, 0), end' = fin3 (0, 0, 0)\<rparr>
      \<lparr>radius = Fin 1, position = fin3 (0, 0, - 3), material = ''red''\<rparr> \<noteq> None
   \<and> intersectRaySphere (rayOfSeg \<lparr>start = fin3 (0, 0, 0), end' = fin3 (0, 0, 0)\<rparr>)
      \<lparr>radius = Fin 1, position = fin3 (0, 0, - 3), material = ''red''\<rparr> \<noteq> None
   \<and> raySphereT (rayOfSeg \<lparr>start = fin3 (0, 0, 0), end' = fin3 (0, 0, 0)\<rparr>)
      \<lparr>radius = Fin 1, position = fin3 (0, 0, - 3), material = ''red''\<rparr> = Some NaN
   \<and> \<not> NaN \<le> Fin 1"
  by (simp add: intersectSegSphere_def intersectRaySphere_def raySphereT_def rayOfSeg_def
      Let_def signedInf_def less_eq_number_def)

section \<open>Cosine-weighted hemisphere sampling\<close>

lemma sampleZ_fin:
  assumes "0 \<le> rnd k"
  shows "cosineWeightedHemisphereSampleZ rnd k = (fin3 (sampleZ_r (rnd k) (rnd (Suc k))), k + 2)"
  using assms
  by (simp add: cosineWeightedHemisphereSampleZ_def sampleZ_r_def Math_random_def Let_def
      Math_PI_def vec3_fromValues_def del: Math_max.simps)

lemma arbitraryBasis_fin:
  "arbitraryBasis (fin3 n) =
     (case basis_r n of (bx, cy, bz) \<Rightarrow> (fin3 bx, fin3 cy, fin3 bz))"
proof -
  obtain n1 n2 n3 where n: "n = (n1, n2, n3)"
    by (cases n)
  have X: "X = fin3 (1, 0, 0)" and Y: "Y = fin3 (0, 1, 0)"
    by (simp_all add: X_def Y_def vec3_fromValues_def)
  define ref :: rvec where "ref = (if \<bar>n2\<bar> < 9 / 10 then (0, 1, 0) else (1, 0, 0))"
  have "Math_abs (fst (snd (fin3 n))) < Fin (9 / 10) \<longleftrightarrow> \<bar>n2\<bar> < 9 / 10"
    by (simp add: n)
  then have ref: "(if Math_abs (fst (snd (fin3 n))) < Fin (9 / 10) then Y else X) = fin3 ref"
    by (simp add: ref_def X Y del: fin3.simps)
  obtain b1 b2 b3 where bx: "normalize_r (cross_r n ref) = (b1, b2, b3)"
    by (cases "normalize_r (cross_r n ref)")
  obtain c1 c2 c3 where cy: "cross_r n (b1, b2, b3) = (c1, c2, c3)"
    by (cases "cross_r n (b1, b2, b3)")
  have "arbitraryBasis (fin3 n) = (fin3 (b1, b2, b3), fin3 (c1, c2, c3), fin3 n)"
    unfolding arbitraryBasis_def ref Let_def vec3_cross_fin3 vec3_normalize_fin3 bx
    using cy by (simp add: n mat3_fromValues_def)
  moreover have "basis_r n = ((b1, b2, b3), (c1, c2, c3), n)"
    using bx cy unfolding n ref_def by (simp add: basis_r_def Let_def)
  ultimately show ?thesis
    by simp
qed

lemma sample_fin:
  assumes "0 \<le> rnd k"
  shows "cosineWeightedHemisphereSample (fin3 n) rnd k =
           (fin3 (sample_r n (rnd k) (rnd (Suc k))), k + 2)"
proof -
  obtain x y z where s: "sampleZ_r (rnd k) (rnd (Suc k)) = (x, y, z)"
    by (cases "sampleZ_r (rnd k) (rnd (Suc k))")
  obtain bx cy bz where b: "basis_r n = (bx, cy, bz)"
    by (cases "basis_r n")
  show ?thesis
    unfolding cosineWeightedHemisphereSample_def sampleZ_fin [of rnd k, OF assms] arbitraryBasis_fin
      sample_r_def s b
    by (cases bx; cases cy; cases bz) simp
qed

lemma dot_r_commute: "dot_r a b = dot_r b a"
  by (cases a; cases b) (simp add: mult.commute)

lemma dot_r_add_left: "dot_r (add_r a b) c = dot_r a c + dot_r b c"
  by (cases a; cases b; cases c) (simp add: algebra_simps)

lemma dot_r_scale_left: "dot_r (scale_r a s) b = s * dot_r a b"
  by (cases a; cases b) (simp add: algebra_simps)

lemma dot_r_add_right: "dot_r c (add_r a b) = dot_r c a + dot_r c b"
  by (cases a; cases b; cases c) (simp add: algebra_simps)

lemma dot_r_scale_right: "dot_r b (scale_r a s) = s * dot_r b a"
  by (cases a; cases b) (simp add: algebra_simps)

lemma dot_r_cross_left: "dot_r (cross_r a b) a = 0"
  by (cases a; cases b) (simp add: algebra_simps)

lemma dot_r_cross_right: "dot_r (cross_r a b) b = 0"
  by (cases a; cases b) (simp add: algebra_simps)

lemma dot_r_cross_cross:
  "dot_r (cross_r a b) (cross_r a b) = dot_r a a * dot_r b b - dot_r a b * dot_r a b"
  by (cases a; cases b) (simp add: algebra_simps)

lemma normalize_r_unit:
  assumes "0 < dot_r c c"
  shows "dot_r (normalize_r c) (normalize_r c) = 1"
proof -
  have "sqrt (dot_r c c) * sqrt (dot_r c c) = dot_r c c"
    using assms by simp
  with assms show ?thesis
    by (simp add: normalize_r_def dot_r_scale_left dot_r_scale_right)
qed

lemma normalize_r_dot:
  assumes "0 < dot_r c c"
  shows "dot_r (normalize_r c) n = dot_r c n / sqrt (dot_r c c)"
  using assms by (simp add: normalize_r_def dot_r_scale_left)

lemma reference_not_parallel:
  assumes "dot_r n n = 1"
  shows "0 < dot_r (cross_r n (if \<bar>fst (snd n)\<bar> < 9 / 10 then (0, 1, 0) else (1, 0, 0)))
               (cross_r n (if \<bar>fst (snd n)\<bar> < 9 / 10 then (0, 1, 0) else (1, 0, 0)))"
proof -
  obtain n1 n2 n3 where n: "n = (n1, n2, n3)"
    by (cases n)
  from assms have unit: "n1 * n1 + n2 * n2 + n3 * n3 = 1"
    by (simp add: n)
  show ?thesis
  proof (cases "\<bar>n2\<bar> < 9 / 10")
    case True
    then have "\<bar>n2\<bar> * \<bar>n2\<bar> < 1 * 1"
      by (intro mult_strict_mono) simp_all
    then have "n2 * n2 < 1"
      by (simp add: abs_mult_self_eq)
    with unit have "0 < n3 * n3 + n1 * n1"
      by linarith
    with True show ?thesis
      by (simp add: n)
  next
    case False
    then have "(9 / 10) * (9 / 10) \<le> \<bar>n2\<bar> * \<bar>n2\<bar>"
      by (intro mult_mono) simp_all
    then have "0 < n2 * n2"
      by (simp add: abs_mult_self_eq)
    moreover have "0 \<le> n3 * n3"
      by simp
    ultimately have "0 < n3 * n3 + n2 * n2"
      by linarith
    with False show ?thesis
      by (simp add: n)
  qed
qed

lemma basis_r_orthonormal:
  assumes "dot_r n n = 1" and "basis_r n = (bx, cy, bz)"
  shows "bz = n" and "dot_r bx bx = 1" and "dot_r cy cy = 1" and "dot_r bx cy = 0"
    and "dot_r bx n = 0" and "dot_r cy n = 0"
proof -
  define c where "c = cross_r n (if \<bar>fst (snd n)\<bar> < 9 / 10 then (0, 1, 0) else (1, 0, 0))"
  have pos: "0 < dot_r c c"
    unfolding c_def using assms(1) by (rule reference_not_parallel)
  from assms(2) have bx: "bx = normalize_r c" and cy: "cy = cross_r n bx" and bz: "bz = n"
    by (auto simp: basis_r_def Let_def c_def)
  show "bz = n"
    by (rule bz)
  show x1: "dot_r bx bx = 1"
    unfolding bx using pos by (rule normalize_r_unit)
  have "dot_r c n = 0"
    unfolding c_def by (rule dot_r_cross_left)
  then show xn: "dot_r bx n = 0"
    unfolding bx by (simp add: normalize_r_dot [OF pos])
  then have nx: "dot_r n bx = 0"
    by (simp add: dot_r_commute)
  show "dot_r cy cy = 1"
    unfolding cy by (simp add: dot_r_cross_cross assms(1) x1 nx)
  show "dot_r cy n = 0"
    unfolding cy by (rule dot_r_cross_left)
  have "dot_r cy bx = 0"
    unfolding cy by (rule dot_r_cross_right)
  then show "dot_r bx cy = 0"
    by (simp add: dot_r_commute)
qed

lemma sampleZ_r_unit:
  assumes "0 \<le> u1" and "u1 < 1" and "sampleZ_r u1 u2 = (x, y, z)"
  shows "x * x + y * y + z * z = 1" and "0 \<le> z"
proof -
  define t where "t = u2 * 2 * pi"
  define s where "s = sqrt u1"
  from assms(3) have x: "x = s * cos t" and y: "y = s * sin t"
    and z: "z = sqrt (max 0 (1 - x * x - y * y))"
    by (auto simp: sampleZ_r_def Let_def t_def s_def)
  have ss: "s * s = u1"
    using assms(1) by (simp add: s_def)
  have "x * x + y * y = (s * s) * (cos t * cos t + sin t * sin t)"
    unfolding x y by (simp only: algebra_simps)
  also have "cos t * cos t + sin t * sin t = 1"
    using sin_cos_squared_add2 [of t] by (simp add: power2_eq_square)
  finally have disk: "x * x + y * y = u1"
    using ss by simp
  then have "1 - x * x - y * y = 1 - u1"
    by simp
  with assms(2) have z': "z = sqrt (1 - u1)"
    by (simp add: z max_def)
  with assms(2) show "0 \<le> z"
    by simp
  from z' assms(2) have "z * z = 1 - u1"
    by simp
  with disk show "x * x + y * y + z * z = 1"
    by simp
qed

lemma sample_r_unit:
  assumes "dot_r n n = 1" and "0 \<le> u1" and "u1 < 1"
  shows "dot_r (sample_r n u1 u2) (sample_r n u1 u2) = 1"
    and "0 \<le> dot_r (sample_r n u1 u2) n"
proof -
  obtain x y z where s: "sampleZ_r u1 u2 = (x, y, z)"
    by (cases "sampleZ_r u1 u2")
  obtain bx cy bz where b: "basis_r n = (bx, cy, bz)"
    by (cases "basis_r n")
  note o = basis_r_orthonormal [OF assms(1) b]
  have v: "sample_r n u1 u2 = add_r (add_r (scale_r bx x) (scale_r cy y)) (scale_r n z)"
    by (simp add: sample_r_def s b o(1))
  have yx: "dot_r cy bx = 0" and nx: "dot_r n bx = 0" and ny: "dot_r n cy = 0"
    using o by (simp_all add: dot_r_commute)
  have "dot_r (sample_r n u1 u2) (sample_r n u1 u2) = x * x + y * y + z * z"
    unfolding v
    by (simp add: dot_r_add_left dot_r_add_right dot_r_scale_left dot_r_scale_right
        o assms(1) yx nx ny)
  with sampleZ_r_unit(1) [OF assms(2,3) s]
  show "dot_r (sample_r n u1 u2) (sample_r n u1 u2) = 1"
    by simp
  have "dot_r (sample_r n u1 u2) n = z"
    unfolding v by (simp add: dot_r_add_left dot_r_scale_left o assms(1))
  with sampleZ_r_unit(2) [OF assms(2,3) s] show "0 \<le> dot_r (sample_r n u1 u2) n"
    by simp
qed

text \<open>
  Claim C6. For a finite normal of unit length and draws \<open>u1\<close>, \<open>u2\<close> in \<open>[0, 1)\<close>,
  \<open>cosineWeightedHemisphereSample\<close> returns the sample of Malley's method (\<open>sample_r\<close>: the
  disk point \<open>r = \<surd>u1\<close>, \<open>\<theta> = 2 \<pi> u2\<close> lifted by \<open>z = \<surd>max(0, 1 - x\<^sup>2 - y\<^sup>2)\<close> and taken
  into the basis of \<open>arbitraryBasis\<close>, which is orthonormal, has the normal as Z axis and
  takes Y as reference axis when \<open>|n\<^sub>y| < 0.9\<close> and X otherwise); the sample has unit length
  and a non-negative dot product with the normal. It takes two draws from the random
  source.
\<close>

theorem cosineWeightedHemisphereSample_unit:
  assumes "dot_r n n = 1"
    and "0 \<le> rnd k" and "rnd k < 1" and "0 \<le> rnd (Suc k)" and "rnd (Suc k) < 1"
  shows "cosineWeightedHemisphereSample (fin3 n) rnd k =
           (fin3 (sample_r n (rnd k) (rnd (Suc k))), k + 2)
       \<and> dot_r (sample_r n (rnd k) (rnd (Suc k))) (sample_r n (rnd k) (rnd (Suc k))) = 1
       \<and> 0 \<le> dot_r (sample_r n (rnd k) (rnd (Suc k))) n
       \<and> arbitraryBasis (fin3 n) =
           (case basis_r n of (bx, cy, bz) \<Rightarrow> (fin3 bx, fin3 cy, fin3 bz))
       \<and> (case basis_r n of (bx, cy, bz) \<Rightarrow>
             bz = n \<and> dot_r bx bx = 1 \<and> dot_r cy cy = 1 \<and> dot_r bx cy = 0 \<and>
             dot_r bx n = 0 \<and> dot_r cy n = 0)"
proof -
  obtain bx cy bz where b: "basis_r n = (bx, cy, bz)"
    by (cases "basis_r n")
  from basis_r_orthonormal [OF assms(1) b] b
  have "case basis_r n of (bx, cy, bz) \<Rightarrow>
          bz = n \<and> dot_r bx bx = 1 \<and> dot_r cy cy = 1 \<and> dot_r bx cy = 0 \<and>
          dot_r bx n = 0 \<and> dot_r cy n = 0"
    by simp
  with sample_fin [of rnd k n, OF assms(2)] sample_r_unit [OF assms(1-3)] arbitraryBasis_fin [of n]
  show ?thesis
    by simp
qed

text \<open>
  The witness of C6: the normal \<open>(0, 0, 1)\<close> with the draws \<open>u1 = 1/4\<close> and \<open>u2 = 0\<close>.
\<close>

theorem cosineWeightedHemisphereSample_unit_witness:
  "dot_r (0, 0, 1) (0, 0, 1) = 1
   \<and> (0 :: real) \<le> 1 / 4 \<and> (1 / 4 :: real) < 1 \<and> (0 :: real) \<le> 0 \<and> (0 :: real) < 1
   \<and> cosineWeightedHemisphereSample (fin3 (0, 0, 1)) (\<lambda>i. if i = 0 then 1 / 4 else 0) 0 =
       (fin3 (sample_r (0, 0, 1) (1 / 4) 0), 2)
   \<and> sample_r (0, 0, 1) (1 / 4) 0 = (- 1 / 2, 0, sqrt 3 / 2)
   \<and> dot_r (sample_r (0, 0, 1) (1 / 4) 0) (sample_r (0, 0, 1) (1 / 4) 0) = 1
   \<and> 0 \<le> dot_r (sample_r (0, 0, 1) (1 / 4) 0) (0, 0, 1)"
proof -
  have "sample_r (0, 0, 1) (1 / 4) 0 = (- 1 / 2, 0, sqrt 3 / 2)"
    by (simp add: sample_r_def sampleZ_r_def basis_r_def normalize_r_def Let_def
        real_sqrt_divide)
  then show ?thesis
    using cosineWeightedHemisphereSample_unit
      [of "(0, 0, 1)" "\<lambda>i. if i = 0 then 1 / 4 else 0" 0]
    by simp
qed

section \<open>Shading\<close>

text \<open>
  Claim C7. For a finite light, contact and material with the light away from the contact
  position, \<open>evaluatePointLight\<close> returns
  \<open>(albedo / \<pi>) * max (normalize (L - P) \<cdot> N) 0 * (power / (4 \<pi>)) * (1 / |L - P|\<^sup>2)\<close>: the
  Lambert term scaled by the inverse-square irradiance of an isotropic point source.
\<close>

theorem evaluatePointLight_formula:
  assumes "L \<noteq> P"
  shows "evaluatePointLight \<lparr>radiantPower = Fin pw, position = fin3 L\<rparr>
           \<lparr>position = fin3 P, normal = fin3 N, geometry = g\<rparr> \<lparr>albedo = fin3 A\<rparr> =
         fin3 (scale_r
                 (scale_r (scale_r A (1 / pi))
                    (max (dot_r (normalize_r (sub_r L P)) N) 0))
                 (pw / (4 * pi) * (1 / dot_r (sub_r L P) (sub_r L P))))"
proof -
  from assms have "sub_r L P \<noteq> (0, 0, 0)"
    by (cases L; cases P) auto
  then have "0 < dot_r (sub_r L P) (sub_r L P)"
    by (rule dot_r_self_pos)
  then show ?thesis
    by (cases "normalize_r (sub_r L P)"; cases N)
       (simp add: evaluatePointLight_def lambertTerm_def Let_def Math_PI_def max_def)
qed

text \<open>
  The witness of C7: a light of power 1000 at distance 3 along the normal of a red surface.
\<close>

theorem evaluatePointLight_formula_witness:
  "(0, 0, 1) \<noteq> (0, 0, - 2 :: real)
   \<and> evaluatePointLight \<lparr>radiantPower = Fin 1000, position = fin3 (0, 0, 1)\<rparr>
         \<lparr>position = fin3 (0, 0, - 2), normal = fin3 (0, 0, 1),
          geometry = \<lparr>radius = Fin 1, position = fin3 (0, 0, - 3), material = ''red''\<rparr>\<rparr>
         \<lparr>albedo = fin3 (1, 0, 0)\<rparr> =
       fin3 (1000 / (36 * (pi * pi)), 0, 0)"
  using evaluatePointLight_formula [of "(0, 0, 1)" "(0, 0, - 2)" 1000 "(0, 0, 1)"
      "\<lparr>radius = Fin 1, position = fin3 (0, 0, - 3), material = ''red''\<rparr>" "(1, 0, 0)"]
  by (simp add: normalize_r_def sqrt_9)

subsection \<open>Rounding to the nearest number\<close>

lemma rne_bounds: "\<lfloor>y\<rfloor> \<le> rne y \<and> rne y \<le> \<lfloor>y\<rfloor> + 1"
  by (simp add: rne_def Let_def)

lemma rne_of_int [simp]: "rne (of_int j) = j"
  by (simp add: rne_def)

lemma rne_mono:
  assumes "y \<le> y'"
  shows "rne y \<le> rne y'"
proof (cases "\<lfloor>y\<rfloor> = \<lfloor>y'\<rfloor>")
  case True
  with assms show ?thesis
    by (auto simp: rne_def Let_def)
next
  case False
  with assms have "\<lfloor>y\<rfloor> + 1 \<le> \<lfloor>y'\<rfloor>"
    using floor_mono [of y y'] by linarith
  with rne_bounds [of y] rne_bounds [of y'] show ?thesis
    by linarith
qed

lemma floor_log_bounds:
  assumes "0 < x"
  shows "2 powr of_int \<lfloor>log 2 x\<rfloor> \<le> x"
  using floor_log_eq_powr_iff [of x 2 "\<lfloor>log 2 x\<rfloor>"] assms by simp

lemma rne_0 [simp]: "rne 0 = 0"
  using rne_of_int [of 0] by simp

lemma grid_multiple:
  assumes "E \<le> k"
  shows "\<exists>j :: int. real_of_int m * 2 powr of_int k / 2 powr of_int E = of_int j"
proof -
  have "(2 :: real) powr of_int k / 2 powr of_int E = 2 powr (of_int (k - E))"
    by (simp add: powr_diff)
  also have "\<dots> = 2 powr real (nat (k - E))"
    using assms by simp
  also have "\<dots> = 2 ^ nat (k - E)"
    by (simp add: powr_realpow)
  finally have "real_of_int m * (2 powr of_int k / 2 powr of_int E) =
      of_int (m * 2 ^ nat (k - E))"
    by simp
  then show ?thesis
    by (metis times_divide_eq_right)
qed

lemma below_grid:
  assumes "\<bar>m\<bar> < 2 ^ p" and "k < e - int p + 1"
  shows "real_of_int m * 2 powr of_int k < 2 powr of_int e"
proof -
  have "of_int m < (2 :: real) ^ p"
    using assms(1) by (metis abs_less_iff of_int_less_numeral_power_cancel_iff)
  then have "real_of_int m * 2 powr of_int k < 2 ^ p * 2 powr of_int k"
    by simp
  also have "\<dots> = 2 powr (of_int (int p + k))"
    by (simp add: powr_add powr_realpow)
  also have "\<dots> \<le> 2 powr of_int e"
    using assms(2) by (intro powr_mono) simp_all
  finally show ?thesis .
qed

lemma roundTo_ge:
  assumes "0 < x" and "representable p c" and "c \<le> x" and "0 < p"
  shows "c \<le> roundTo p x"
proof -
  define e where "e = \<lfloor>log 2 x\<rfloor>"
  define E where "E = e - int p + 1"
  define u :: real where "u = 2 powr of_int E"
  have u: "0 < u"
    by (simp add: u_def)
  have r: "roundTo p x = u * of_int (rne (x / u))"
    using assms(1) by (simp add: roundTo_def gridUnit_def u_def E_def e_def)
  have pow: "2 powr of_int e \<le> x"
    unfolding e_def using assms(1) by (rule floor_log_bounds)
  have multiple: "u * of_int j \<le> roundTo p x" if "u * of_int j \<le> x" for j
  proof -
    from that u have "of_int j \<le> x / u"
      by (simp add: field_simps)
    then have "rne (of_int j) \<le> rne (x / u)"
      by (rule rne_mono)
    with u show ?thesis
      by (simp add: r)
  qed
  from assms(2) obtain m k :: int where c: "c = of_int m * 2 powr of_int k"
    and m: "\<bar>m\<bar> < 2 ^ p"
    by (auto simp: representable_def)
  show ?thesis
  proof (cases "E \<le> k")
    case True
    then obtain j :: int where "c / u = of_int j"
      unfolding c u_def using grid_multiple by blast
    with u have "c = u * of_int j"
      by (simp add: field_simps)
    with multiple [of j] assms(3) show ?thesis
      by simp
  next
    case False
    then have "k < e - int p + 1"
      by (simp add: E_def)
    with m have "c < 2 powr of_int e"
      unfolding c by (rule below_grid)
    moreover have "2 powr of_int e = u * of_int (2 ^ (p - 1))"
    proof -
      have "e = E + int (p - 1)"
        using assms(4) by (simp add: E_def)
      then show ?thesis
        by (simp add: u_def powr_add powr_realpow)
    qed
    ultimately show ?thesis
      using multiple [of "2 ^ (p - 1)"] pow by simp
  qed
qed

lemma roundTo_le:
  assumes "0 < x" and "representable p c" and "x \<le> c"
  shows "roundTo p x \<le> c"
proof -
  define e where "e = \<lfloor>log 2 x\<rfloor>"
  define E where "E = e - int p + 1"
  define u :: real where "u = 2 powr of_int E"
  have u: "0 < u"
    by (simp add: u_def)
  have r: "roundTo p x = u * of_int (rne (x / u))"
    using assms(1) by (simp add: roundTo_def gridUnit_def u_def E_def e_def)
  have pow: "2 powr of_int e \<le> x"
    unfolding e_def using assms(1) by (rule floor_log_bounds)
  from assms(2) obtain m k :: int where c: "c = of_int m * 2 powr of_int k"
    and m: "\<bar>m\<bar> < 2 ^ p"
    by (auto simp: representable_def)
  show ?thesis
  proof (cases "E \<le> k")
    case True
    then obtain j :: int where j: "c / u = of_int j"
      unfolding c u_def using grid_multiple by blast
    from assms(3) u have "x / u \<le> c / u"
      by (simp add: field_simps)
    then have "rne (x / u) \<le> rne (c / u)"
      by (rule rne_mono)
    then have "of_int (rne (x / u)) \<le> c / u"
      unfolding j by simp
    with u show ?thesis
      by (simp add: r field_simps)
  next
    case False
    then have "k < e - int p + 1"
      by (simp add: E_def)
    with m have "c < 2 powr of_int e"
      unfolding c by (rule below_grid)
    with pow assms(3) show ?thesis
      by simp
  qed
qed

lemma roundTo_representable:
  assumes "representable p c" and "0 \<le> c" and "0 < p"
  shows "roundTo p c = c"
proof (cases "c = 0")
  case True
  then show ?thesis
    by (simp add: roundTo_def)
next
  case False
  with assms(2) have "0 < c"
    by simp
  from roundTo_ge [OF this assms(1) _ assms(3)] roundTo_le [OF \<open>0 < c\<close> assms(1)]
  show ?thesis
    by simp
qed

lemma roundTo_nonneg:
  assumes "0 \<le> x"
  shows "0 \<le> roundTo p x"
proof (cases "x = 0")
  case True
  then show ?thesis
    by (simp add: roundTo_def)
next
  case False
  have u: "0 < gridUnit p x"
    by (simp add: gridUnit_def)
  with assms have "of_int 0 \<le> x / gridUnit p x"
    by simp
  then have "rne (of_int 0) \<le> rne (x / gridUnit p x)"
    by (rule rne_mono)
  then have "0 \<le> real_of_int (rne (x / gridUnit p x))"
    by simp
  with u False show ?thesis
    by (simp add: roundTo_def)
qed

lemma representable_int:
  assumes "\<bar>m\<bar> < 2 ^ p"
  shows "representable p (of_int m)"
  unfolding representable_def using assms by (intro exI [of _ m] exI [of _ 0]) simp

lemma representable_1 [simp]: "0 < p \<Longrightarrow> representable p 1"
  using representable_int [of 1 p] by simp

lemma floor_log_half:
  fixes q :: real
  assumes q: "q < 1" "1 / 2 \<le> q" "0 < q"
  shows "\<lfloor>log 2 q\<rfloor> = - 1"
proof -
  have "2 powr of_int (- 1) \<le> q \<and> q < 2 powr (of_int (- 1) + 1)"
    using q by (simp add: powr_minus)
  with q(3) show ?thesis
    using floor_log_eq_powr_iff [of q 2 "- 1"] by simp
qed

lemma gridUnit_exp: "(2::real) powr of_int (- 1 - int 24 + 1) = 1 / 2 ^ 24"
proof -
  have "(2::real) powr of_int (- 1 - int 24 + 1) = 2 powr (- real 24)"
    by simp
  also have "\<dots> = 1 / 2 powr real 24"
    by (simp only: powr_minus_divide)
  also have "(2::real) powr real 24 = 2 ^ 24"
    by (simp only: powr_realpow zero_less_numeral)
  finally show ?thesis .
qed

lemma representable_below_1: "representable 53 (1 - 1 / 2 ^ 25)"
proof -
  have "(2::real) powr of_int (- 25) = 1 / 2 ^ 25"
  proof -
    have "(2::real) powr of_int (- 25) = 2 powr (- real 25)"
      by simp
    also have "\<dots> = 1 / 2 powr real 25"
      by (simp only: powr_minus_divide)
    also have "(2::real) powr real 25 = 2 ^ 25"
      by (simp only: powr_realpow zero_less_numeral)
    finally show ?thesis .
  qed
  then have "1 - 1 / 2 ^ 25 = real_of_int (2 ^ 25 - 1) * 2 powr of_int (- 25)"
    by simp
  moreover have "\<bar>2 ^ 25 - 1 :: int\<bar> < 2 ^ 53"
    by simp
  ultimately show ?thesis
    unfolding representable_def by blast
qed


lemma rne_round_up:
  assumes "of_int f + 1 / 2 \<le> y" and "y < of_int f + 1" and "odd f"
  shows "rne y = f + 1"
proof -
  from assms(1,2) have "\<lfloor>y\<rfloor> = f"
    by linarith
  with assms show ?thesis
    by (auto simp: rne_def Let_def)
qed

lemma fround_near_1:
  assumes "1 - 1 / 2 ^ 25 \<le> q" and "q \<le> 1"
  shows "roundTo 24 q = 1"
proof (cases "q = 1")
  case True
  then show ?thesis
    by (simp add: roundTo_representable)
next
  case False
  with assms have q: "q < 1" "1 / 2 \<le> q" "0 < q"
    by simp_all
  have "\<lfloor>log 2 \<bar>q\<bar>\<rfloor> = - 1"
    using floor_log_half [OF q] q(3) by simp
  then have u: "gridUnit 24 q = 1 / 2 ^ 24"
    unfolding gridUnit_def using gridUnit_exp by simp
  have "rne (q * 2 ^ 24) = (2 ^ 24 - 1) + 1"
    using assms(1) q(1) by (intro rne_round_up) simp_all
  then have "rne (q / gridUnit 24 q) = 2 ^ 24"
    by (simp add: u)
  with q show ?thesis
    by (simp add: roundTo_def u)
qed

lemma reinhard_r_2_25: "reinhard_r (2 ^ 25) = 1" "reinhard_r (2 ^ 26) = 1"
proof -
  have one: "reinhard_r (of_int n) = 1" if "2 ^ 25 \<le> n" and "n < 2 ^ 52" for n :: int
  proof -
    have "representable 53 (of_int (1 + n))"
      using that by (intro representable_int) simp
    then have s: "roundTo 53 (1 + of_int n) = 1 + of_int n"
      using that by (intro roundTo_representable) simp_all
    define x :: real where "x = of_int n / (1 + of_int n)"
    have n: "(2 :: real) ^ 25 \<le> of_int n"
      using that(1) by (metis of_int_le_iff of_int_numeral of_int_power)
    then have x: "0 < x" "x \<le> 1" "1 - 1 / 2 ^ 25 \<le> x"
      by (simp_all add: x_def field_simps)
    from roundTo_ge [OF x(1) representable_below_1 x(3)] roundTo_le [OF x(1) _ x(2), of 53]
    have "1 - 1 / 2 ^ 25 \<le> roundTo 53 x" "roundTo 53 x \<le> 1"
      by simp_all
    then have "roundTo 24 (roundTo 53 x) = 1"
      by (rule fround_near_1)
    then show ?thesis
      by (simp add: reinhard_r_def s x_def)
  qed
  from one [of "2 ^ 25"] show "reinhard_r (2 ^ 25) = 1"
    by simp
  from one [of "2 ^ 26"] show "reinhard_r (2 ^ 26) = 1"
    by simp
qed

lemma reinhard_r_range:
  assumes "0 \<le> c" and "representable 53 c"
  shows "0 \<le> reinhard_r c \<and> reinhard_r c \<le> 1"
proof -
  define s where "s = roundTo 53 (1 + c)"
  have s: "c \<le> s" "1 \<le> s"
    unfolding s_def using assms by (auto intro!: roundTo_ge)
  define x where "x = c / s"
  from s assms(1) have x: "0 \<le> x" "x \<le> 1"
    by (simp_all add: x_def field_simps)
  define q where "q = roundTo 53 x"
  have q: "0 \<le> q" "q \<le> 1"
  proof -
    show "0 \<le> q"
      unfolding q_def using x(1) by (rule roundTo_nonneg)
    show "q \<le> 1"
    proof (cases "x = 0")
      case True
      then show ?thesis
        by (simp add: q_def roundTo_def)
    next
      case False
      with x have "0 < x"
        by simp
      from roundTo_le [OF this _ x(2), of 53] show ?thesis
        by (simp add: q_def)
    qed
  qed
  have "0 \<le> roundTo 24 q"
    using q(1) by (rule roundTo_nonneg)
  moreover have "roundTo 24 q \<le> 1"
  proof (cases "q = 0")
    case True
    then show ?thesis
      by (simp add: roundTo_def)
  next
    case False
    with q have "0 < q"
      by simp
    from roundTo_le [OF this _ q(2), of 24] show ?thesis
      by simp
  qed
  ultimately show ?thesis
    by (simp add: reinhard_r_def s_def x_def q_def)
qed

lemma tonemapReinhard_Fin:
  "tonemapReinhard (Fin r, Fin g, Fin b) =
     (if roundTo 53 (1 + r) = 0 then Math_fround (roundDouble (signedInf r)) else Fin (reinhard_r r),
      if roundTo 53 (1 + g) = 0 then Math_fround (roundDouble (signedInf g)) else Fin (reinhard_r g),
      if roundTo 53 (1 + b) = 0 then Math_fround (roundDouble (signedInf b)) else Fin (reinhard_r b))"
  by (simp add: tonemapReinhard_def vec3_fromValues_def reinhard_r_def)

lemma roundTo_53_sum_pos:
  assumes "0 \<le> c" and "representable 53 c"
  shows "roundTo 53 (1 + c) \<noteq> 0"
proof -
  have "1 \<le> roundTo 53 (1 + c)"
    using assms by (intro roundTo_ge) simp_all
  then show ?thesis
    by simp
qed

lemma representable_half: "representable 24 (1 / 2)" "representable 53 (1 / 2)"
proof -
  have "(1 / 2 :: real) = real_of_int 1 * 2 powr of_int (- 1)"
    by (simp add: powr_minus_divide)
  moreover have "\<bar>1 :: int\<bar> < 2 ^ 24" "\<bar>1 :: int\<bar> < 2 ^ 53"
    by simp_all
  ultimately show "representable 24 (1 / 2)" "representable 53 (1 / 2)"
    unfolding representable_def by blast+
qed

lemma representable_3_4: "representable 24 (3 / 4)" "representable 53 (3 / 4)"
proof -
  have "(2::real) powr of_int (- 2) = 1 / 4"
  proof -
    have "(2::real) powr of_int (- 2) = 2 powr (- real 2)"
      by simp
    also have "\<dots> = 1 / 2 powr real 2"
      by (simp only: powr_minus_divide)
    also have "(2::real) powr real 2 = 2 ^ 2"
      by (simp only: powr_realpow zero_less_numeral)
    finally show ?thesis
      by simp
  qed
  then have "(3 / 4 :: real) = real_of_int 3 * 2 powr of_int (- 2)"
    by simp
  moreover have "\<bar>3 :: int\<bar> < 2 ^ 24" "\<bar>3 :: int\<bar> < 2 ^ 53"
    by simp_all
  ultimately show "representable 24 (3 / 4)" "representable 53 (3 / 4)"
    unfolding representable_def by blast+
qed

lemma reinhard_r_0: "reinhard_r 0 = 0"
  by (simp add: reinhard_r_def roundTo_representable) (simp add: roundTo_def)

lemma reinhard_r_1: "reinhard_r 1 = 1 / 2"
proof -
  have "representable 53 (of_int 2)"
    by (rule representable_int) simp
  then have "roundTo 53 (1 + 1) = 2"
    using roundTo_representable [of 53 2] by simp
  then show ?thesis
    by (simp add: reinhard_r_def roundTo_representable representable_half)
qed

lemma reinhard_r_3: "reinhard_r 3 = 3 / 4"
proof -
  have "representable 53 (of_int 4)"
    by (rule representable_int) simp
  then have "roundTo 53 (1 + 3) = 4"
    using roundTo_representable [of 53 4] by simp
  then show ?thesis
    by (simp add: reinhard_r_def roundTo_representable representable_3_4)
qed

lemma representable_3: "representable 53 3"
  using representable_int [of 3 53] by simp

lemma representable_0: "representable 53 0"
  using representable_int [of 0 53] by simp

lemma representable_pow: "n < 53 \<Longrightarrow> representable 53 (2 ^ n)"
proof -
  assume "n < 53"
  then have "(2 :: int) ^ n < 2 ^ 53"
    by (intro power_strict_increasing) simp_all
  then have "representable 53 (of_int (2 ^ n))"
    by (intro representable_int) simp
  then show ?thesis
    by simp
qed

lemma representable_powr: "0 < p \<Longrightarrow> representable p (2 powr of_int e)"
proof -
  assume "0 < p"
  then have "\<bar>1 :: int\<bar> < 2 ^ p"
    by simp
  moreover have "2 powr of_int e = real_of_int 1 * 2 powr of_int e"
    by simp
  ultimately show ?thesis
    unfolding representable_def by blast
qed

lemma roundTo_mono:
  assumes "0 \<le> x" and "x \<le> y" and "0 < p"
  shows "roundTo p x \<le> roundTo p y"
proof (cases "x = 0")
  case True
  with assms show ?thesis
    using roundTo_nonneg [of y p] by (simp add: roundTo_def)
next
  case False
  with assms have x: "0 < x" and y: "0 < y"
    by simp_all
  define e where "e = \<lfloor>log 2 y\<rfloor>"
  have e: "2 powr of_int e \<le> y" "y < 2 powr (of_int e + 1)"
    using floor_log_eq_powr_iff [of y 2 e] y by (simp_all add: e_def)
  show ?thesis
  proof (cases "x < 2 powr of_int e")
    case True
    have "roundTo p x \<le> 2 powr of_int e"
      using x representable_powr [OF assms(3)] True by (intro roundTo_le) simp_all
    also have "\<dots> \<le> roundTo p y"
      using y representable_powr [OF assms(3)] e(1) assms(3) by (rule roundTo_ge)
    finally show ?thesis .
  next
    case False
    with e(2) assms(2) have "2 powr of_int e \<le> x \<and> x < 2 powr (of_int e + 1)"
      by simp
    with x have "\<lfloor>log 2 x\<rfloor> = e"
      using floor_log_eq_powr_iff [of x 2 e] by simp
    with x y have g: "gridUnit p x = gridUnit p y"
      by (simp add: gridUnit_def e_def)
    have u: "0 < gridUnit p y"
      by (simp add: gridUnit_def)
    with assms(2) have "x / gridUnit p y \<le> y / gridUnit p y"
      by (simp add: divide_right_mono)
    then have "rne (x / gridUnit p y) \<le> rne (y / gridUnit p y)"
      by (rule rne_mono)
    then have "gridUnit p y * of_int (rne (x / gridUnit p y)) \<le>
        gridUnit p y * of_int (rne (y / gridUnit p y))"
      using u by simp
    with x y show ?thesis
      by (simp add: roundTo_def g)
  qed
qed

lemma reinhard_r_mono:
  assumes "0 \<le> c" and "c \<le> c'"
    and "representable 53 (1 + c)" and "representable 53 (1 + c')"
  shows "reinhard_r c \<le> reinhard_r c'"
proof -
  have s: "roundTo 53 (1 + c) = 1 + c" "roundTo 53 (1 + c') = 1 + c'"
    using assms by (simp_all add: roundTo_representable)
  have "0 \<le> c / (1 + c)"
    using assms(1) by simp
  moreover have "c / (1 + c) \<le> c' / (1 + c')"
    using assms(1,2) by (simp add: field_simps)
  ultimately have q: "roundTo 53 (c / (1 + c)) \<le> roundTo 53 (c' / (1 + c'))"
    by (rule roundTo_mono) simp
  have "0 \<le> roundTo 53 (c / (1 + c))"
    using assms(1) by (intro roundTo_nonneg) simp
  then have "roundTo 24 (roundTo 53 (c / (1 + c))) \<le> roundTo 24 (roundTo 53 (c' / (1 + c')))"
    using q by (rule roundTo_mono) simp
  then show ?thesis
    by (simp add: reinhard_r_def s)
qed

lemma powr_neg_nat: "(2::real) powr of_int (- int k) = 1 / 2 ^ k"
proof -
  have "(2::real) powr of_int (- int k) = 2 powr (- real k)"
    by simp
  also have "\<dots> = 1 / 2 powr real k"
    by (simp only: powr_minus_divide)
  also have "(2::real) powr real k = 2 ^ k"
    by (simp only: powr_realpow zero_less_numeral)
  finally show ?thesis .
qed

lemma representable_scaled:
  assumes "\<bar>m\<bar> < 2 ^ p"
  shows "representable p (real_of_int m / 2 ^ k)"
proof -
  have "real_of_int m / 2 ^ k = real_of_int m * 2 powr of_int (- int k)"
    by (simp only: powr_neg_nat) simp
  with assms show ?thesis
    unfolding representable_def by blast
qed

lemma rne_nearest:
  assumes "of_int n - 1 / 2 < y" and "y < of_int n + 1 / 2"
  shows "rne y = n"
proof (cases "of_int n \<le> y")
  case True
  with assms(2) have "\<lfloor>y\<rfloor> = n"
    by linarith
  with assms(2) show ?thesis
    by (simp add: rne_def Let_def)
next
  case False
  with assms(1) have "\<lfloor>y\<rfloor> = n - 1"
    by linarith
  with assms(1) show ?thesis
    by (simp add: rne_def Let_def)
qed

lemma rne_tie_even:
  assumes "y = of_int n + 1 / 2" and "even n"
  shows "rne y = n"
proof -
  from assms(1) have "\<lfloor>y\<rfloor> = n"
    by linarith
  with assms show ?thesis
    by (simp add: rne_def Let_def)
qed

lemma roundTo_scaled:
  assumes "2 ^ (p - 1) \<le> x * 2 ^ k" and "x * 2 ^ k < 2 ^ p" and "0 < p"
  shows "roundTo p x = of_int (rne (x * 2 ^ k)) / 2 ^ k"
proof -
  have "(0::real) < 2 ^ (p - 1)"
    by simp
  with assms(1) have "0 < x * 2 ^ k"
    by linarith
  then have x: "0 < x"
    by (simp add: zero_less_mult_iff)
  define e where "e = int p - 1 - int k"
  have lo: "(2::real) powr of_int e = 2 ^ (p - 1) / 2 ^ k"
  proof -
    have "e = int (p - 1) + (- int k)"
      using assms(3) by (simp add: e_def)
    then have "(2::real) powr of_int e = 2 powr (of_int (int (p - 1))) * 2 powr of_int (- int k)"
      by (simp only: of_int_add powr_add)
    also have "(2::real) powr (of_int (int (p - 1))) = 2 ^ (p - 1)"
      by (simp add: powr_realpow)
    finally show ?thesis
      by (simp only: powr_neg_nat) simp
  qed
  have hi: "(2::real) powr (of_int e + 1) = 2 ^ p / 2 ^ k"
  proof -
    have "(2::real) powr (of_int e + 1) = 2 powr of_int e * 2"
      by (simp add: powr_add)
    also have "\<dots> = 2 ^ (p - 1) * 2 / 2 ^ k"
      by (simp add: lo)
    also have "(2::real) ^ (p - 1) * 2 = 2 ^ p"
      using assms(3) by (cases p) simp_all
    finally show ?thesis .
  qed
  have "2 ^ (p - 1) / 2 ^ k \<le> x" and "x < 2 ^ p / 2 ^ k"
    using assms(1,2) by (simp_all add: field_simps)
  then have "2 powr of_int e \<le> x \<and> x < 2 powr (of_int e + 1)"
    by (simp only: lo hi)
  with x have "\<lfloor>log 2 x\<rfloor> = e"
    using floor_log_eq_powr_iff [of x 2 e] by simp
  with x have "gridUnit p x = 2 powr of_int (- int k)"
    by (simp add: gridUnit_def e_def)
  then have "gridUnit p x = 1 / 2 ^ k"
    by (simp only: powr_neg_nat)
  with x show ?thesis
    by (simp add: roundTo_def)
qed

lemma reinhard_r_below:
  "reinhard_r (7464315174297769 / 2 ^ 51) = 12888941 / 2 ^ 24"
proof -
  have "rne (9716114987983017 / 2) = 4858057493991508"
    by (rule rne_tie_even) simp_all
  then have s: "roundTo 53 (1 + 7464315174297769 / 2 ^ 51) = 4858057493991508 / 2 ^ 50"
    using roundTo_scaled [of 53 "1 + 7464315174297769 / 2 ^ 51" 50] by simp
  have "rne (7464315174297769 / (4858057493991508 / 2 ^ 50) * 4) = 6919697240948737"
    by (rule rne_nearest) simp_all
  then have q: "roundTo 53 (7464315174297769 / 2 ^ 51 / (4858057493991508 / 2 ^ 50)) =
      6919697240948737 / 2 ^ 53"
    using roundTo_scaled [of 53 "7464315174297769 / 2 ^ 51 / (4858057493991508 / 2 ^ 50)" 53]
    by simp
  have "rne (6919697240948737 / 2 ^ 29) = 12888941"
    by (rule rne_nearest) simp_all
  then have "roundTo 24 (6919697240948737 / 2 ^ 53) = 12888941 / 2 ^ 24"
    using roundTo_scaled [of 24 "6919697240948737 / 2 ^ 53" 24] by simp
  then show ?thesis
    unfolding reinhard_r_def s q .
qed

lemma reinhard_r_above:
  "reinhard_r (7464315174297770 / 2 ^ 51) = 12888940 / 2 ^ 24"
proof -
  have "rne 4858057493991509 = 4858057493991509"
    using rne_of_int [of 4858057493991509] by simp
  then have s: "roundTo 53 (1 + 7464315174297770 / 2 ^ 51) = 4858057493991509 / 2 ^ 50"
    using roundTo_scaled [of 53 "1 + 7464315174297770 / 2 ^ 51" 50] by simp
  have "rne (7464315174297770 / (4858057493991509 / 2 ^ 50) * 4) = 6919697240948736"
    by (rule rne_nearest) simp_all
  then have q: "roundTo 53 (7464315174297770 / 2 ^ 51 / (4858057493991509 / 2 ^ 50)) =
      6919697240948736 / 2 ^ 53"
    using roundTo_scaled [of 53 "7464315174297770 / 2 ^ 51 / (4858057493991509 / 2 ^ 50)" 53]
    by simp
  have "rne (6919697240948736 / 2 ^ 29) = 12888940"
    by (rule rne_tie_even) simp_all
  then have "roundTo 24 (6919697240948736 / 2 ^ 53) = 12888940 / 2 ^ 24"
    using roundTo_scaled [of 24 "6919697240948736 / 2 ^ 53" 24] by simp
  then show ?thesis
    unfolding reinhard_r_def s q .
qed

lemma rne_error: "\<bar>real_of_int (rne y) - y\<bar> \<le> 1 / 2"
proof -
  have "of_int \<lfloor>y\<rfloor> \<le> y" "y < of_int \<lfloor>y\<rfloor> + 1"
    by linarith+
  then show ?thesis
    by (auto simp: rne_def Let_def)
qed

lemma roundTo_error:
  assumes "0 < x"
  shows "\<bar>roundTo p x - x\<bar> \<le> gridUnit p x / 2"
proof -
  define u where "u = gridUnit p x"
  have u: "0 < u"
    by (simp add: u_def gridUnit_def)
  have "roundTo p x - x = u * (of_int (rne (x / u)) - x / u)"
    using assms u by (simp add: roundTo_def u_def algebra_simps)
  then have "\<bar>roundTo p x - x\<bar> = u * \<bar>of_int (rne (x / u)) - x / u\<bar>"
    using u by (simp add: abs_mult)
  also have "\<dots> \<le> u * (1 / 2)"
    using u rne_error [of "x / u"] by (intro mult_left_mono) simp_all
  finally show ?thesis
    by (simp add: u_def)
qed

lemma gridUnit_relative:
  assumes "0 < x"
  shows "gridUnit p x / 2 \<le> x / 2 ^ p"
proof -
  have "gridUnit p x = 2 powr of_int \<lfloor>log 2 x\<rfloor> * 2 powr of_int (- int p) * 2"
  proof -
    have "\<lfloor>log 2 \<bar>x\<bar>\<rfloor> - int p + 1 = \<lfloor>log 2 x\<rfloor> + (- int p) + 1"
      using assms by simp
    then have "gridUnit p x = 2 powr (of_int \<lfloor>log 2 x\<rfloor> + of_int (- int p) + 1)"
      unfolding gridUnit_def by (simp only: of_int_add of_int_1)
    then show ?thesis
      by (simp only: powr_add) simp
  qed
  then have "gridUnit p x / 2 = 2 powr of_int \<lfloor>log 2 x\<rfloor> / 2 ^ p"
    by (simp only: powr_neg_nat) simp
  also have "\<dots> \<le> x / 2 ^ p"
    using floor_log_bounds [OF assms] by (simp add: divide_right_mono)
  finally show ?thesis .
qed

lemma gridUnit_below_1:
  assumes "0 < x" and "x < 1"
  shows "gridUnit p x \<le> 1 / 2 ^ p"
proof -
  from assms have "log 2 x < 0"
    by simp
  then have "\<lfloor>log 2 x\<rfloor> \<le> - 1"
    by linarith
  then have "\<lfloor>log 2 \<bar>x\<bar>\<rfloor> - int p + 1 \<le> - int p"
    using assms by simp
  then have "gridUnit p x \<le> 2 powr of_int (- int p)"
    unfolding gridUnit_def by (intro powr_mono) simp_all
  then show ?thesis
    by (simp only: powr_neg_nat)
qed

lemma fround_error:
  assumes "0 \<le> q" and "q \<le> 1"
  shows "\<bar>roundTo 24 q - q\<bar> \<le> 1 / 2 ^ 25"
proof -
  consider "q = 0" | "q = 1" | "0 < q" "q < 1"
    using assms by linarith
  then show ?thesis
  proof cases
    case 1
    then show ?thesis
      by (simp add: roundTo_def)
  next
    case 2
    then show ?thesis
      by (simp add: roundTo_representable)
  next
    case 3
    from roundTo_error [OF 3(1), of 24] gridUnit_below_1 [OF 3, of 24] show ?thesis
      by simp
  qed
qed

lemma double_error:
  assumes "0 \<le> x" and "x \<le> 1"
  shows "\<bar>roundTo 53 x - x\<bar> \<le> 1 / 2 ^ 53"
proof (cases "x = 0")
  case True
  then show ?thesis
    by (simp add: roundTo_def)
next
  case False
  with assms have x: "0 < x"
    by simp
  have "\<bar>roundTo 53 x - x\<bar> \<le> x / 2 ^ 53"
    using roundTo_error [OF x, of 53] gridUnit_relative [OF x, of 53] by linarith
  also have "\<dots> \<le> 1 / 2 ^ 53"
    using assms(2) by (simp add: divide_right_mono)
  finally show ?thesis .
qed

lemma reinhard_r_error:
  assumes "0 \<le> c" and "representable 53 c"
  shows "\<bar>reinhard_r c - c / (1 + c)\<bar> \<le> 1 / 2 ^ 24"
proof -
  define s where "s = roundTo 53 (1 + c)"
  have s: "c \<le> s" "1 \<le> s"
    unfolding s_def using assms by (auto intro!: roundTo_ge)
  have "\<bar>s - (1 + c)\<bar> \<le> (1 + c) / 2 ^ 53"
    unfolding s_def
    using roundTo_error [of "1 + c" 53] gridUnit_relative [of "1 + c" 53] assms(1) by linarith
  then have sum: "\<bar>1 + c - s\<bar> \<le> (1 + c) / 2 ^ 53"
    by (simp add: abs_minus_commute)
  define x where "x = c / s"
  from s assms(1) have x: "0 \<le> x" "x \<le> 1"
    by (simp_all add: x_def field_simps)
  have "x - c / (1 + c) = x * ((1 + c - s) / (1 + c))"
    using s assms(1) by (simp add: x_def field_simps)
  then have "\<bar>x - c / (1 + c)\<bar> = x * (\<bar>1 + c - s\<bar> / (1 + c))"
    using x(1) assms(1) by (simp add: abs_mult)
  also have "\<dots> \<le> 1 * (1 / 2 ^ 53)"
  proof (rule mult_mono)
    show "\<bar>1 + c - s\<bar> / (1 + c) \<le> 1 / 2 ^ 53"
      using sum assms(1) by (simp add: field_simps)
  qed (use x assms(1) in simp_all)
  finally have e1: "\<bar>x - c / (1 + c)\<bar> \<le> 1 / 2 ^ 53"
    by simp
  define q where "q = roundTo 53 x"
  have e2: "\<bar>q - x\<bar> \<le> 1 / 2 ^ 53"
    unfolding q_def using x by (rule double_error)
  have q: "0 \<le> q" "q \<le> 1"
  proof -
    show "0 \<le> q"
      unfolding q_def using x(1) by (rule roundTo_nonneg)
    show "q \<le> 1"
    proof (cases "x = 0")
      case True
      then show ?thesis
        by (simp add: q_def roundTo_def)
    next
      case False
      with x have "0 < x"
        by simp
      from roundTo_le [OF this _ x(2), of 53] show ?thesis
        by (simp add: q_def)
    qed
  qed
  have e3: "\<bar>roundTo 24 q - q\<bar> \<le> 1 / 2 ^ 25"
    using q by (rule fround_error)
  have "reinhard_r c - c / (1 + c) = (roundTo 24 q - q) + (q - x) + (x - c / (1 + c))"
    by (simp add: reinhard_r_def s_def x_def q_def)
  then have "\<bar>reinhard_r c - c / (1 + c)\<bar> \<le> 1 / 2 ^ 25 + 1 / 2 ^ 53 + 1 / 2 ^ 53"
    using e1 e2 e3 by linarith
  also have "\<dots> \<le> 1 / 2 ^ 24"
    by simp
  finally show ?thesis .
qed

text \<open>
  Claim C8, as amended. For finite non-negative channels that are doubles,
  \<open>tonemapReinhard\<close> returns in each channel the quotient \<open>c / (1 + c)\<close> as the program
  computes it: the sum and the quotient rounded to double, the result stored in single
  precision, with no clamping. Every output channel lies in the closed interval \<open>[0, 1]\<close>
  and within \<open>2\<^sup>-\<^sup>2\<^sup>4\<close> of \<open>c / (1 + c)\<close>; 0 goes to 0 and 1 to 1/2; and the channel map does
  not decrease from \<open>c\<close> to \<open>c'\<close> when the sums \<open>1 + c\<close> and \<open>1 + c'\<close> are exact doubles.
\<close>

theorem tonemapReinhard_rounded:
  assumes "0 \<le> r" and "representable 53 r"
    and "0 \<le> g" and "representable 53 g"
    and "0 \<le> b" and "representable 53 b"
  shows "tonemapReinhard (Fin r, Fin g, Fin b) =
           (Fin (reinhard_r r), Fin (reinhard_r g), Fin (reinhard_r b))
         \<and> 0 \<le> reinhard_r r \<and> reinhard_r r \<le> 1
         \<and> 0 \<le> reinhard_r g \<and> reinhard_r g \<le> 1
         \<and> 0 \<le> reinhard_r b \<and> reinhard_r b \<le> 1
         \<and> \<bar>reinhard_r r - r / (1 + r)\<bar> \<le> 1 / 2 ^ 24
         \<and> \<bar>reinhard_r g - g / (1 + g)\<bar> \<le> 1 / 2 ^ 24
         \<and> \<bar>reinhard_r b - b / (1 + b)\<bar> \<le> 1 / 2 ^ 24
         \<and> tonemapReinhard (Fin 0, Fin 0, Fin 0) = (Fin 0, Fin 0, Fin 0)
         \<and> tonemapReinhard (Fin 1, Fin 1, Fin 1) = (Fin (1 / 2), Fin (1 / 2), Fin (1 / 2))
         \<and> (0 \<le> c \<and> c \<le> c' \<and> representable 53 (1 + c) \<and> representable 53 (1 + c') \<longrightarrow>
              reinhard_r c \<le> reinhard_r c')"
proof -
  have "tonemapReinhard (Fin r, Fin g, Fin b) =
      (Fin (reinhard_r r), Fin (reinhard_r g), Fin (reinhard_r b))"
    using assms by (simp add: tonemapReinhard_Fin roundTo_53_sum_pos)
  moreover have "tonemapReinhard (Fin 0, Fin 0, Fin 0) = (Fin 0, Fin 0, Fin 0)"
    using roundTo_53_sum_pos [OF _ representable_0]
    by (simp add: tonemapReinhard_Fin reinhard_r_0)
  moreover have "tonemapReinhard (Fin 1, Fin 1, Fin 1) =
      (Fin (1 / 2), Fin (1 / 2), Fin (1 / 2))"
    using roundTo_53_sum_pos [of 1]
    by (simp add: tonemapReinhard_Fin reinhard_r_1)
  moreover have "reinhard_r c \<le> reinhard_r c'"
    if "0 \<le> c" and "c \<le> c'" and "representable 53 (1 + c)" and "representable 53 (1 + c')"
    using that by (rule reinhard_r_mono)
  ultimately show ?thesis
    using reinhard_r_range [OF assms(1,2)] reinhard_r_range [OF assms(3,4)]
      reinhard_r_range [OF assms(5,6)] reinhard_r_error [OF assms(1,2)]
      reinhard_r_error [OF assms(3,4)] reinhard_r_error [OF assms(5,6)]
    by simp
qed

text \<open>
  The witness of C8: the channels 1, 3 and 3 map to 1/2, 3/4 and 3/4, and the sums
  \<open>1 + 1\<close> and \<open>1 + 3\<close> are exact.
\<close>

theorem tonemapReinhard_rounded_witness:
  "(0 :: real) \<le> 1 \<and> representable 53 1 \<and> (0 :: real) \<le> 3 \<and> representable 53 3
   \<and> tonemapReinhard (Fin 1, Fin 3, Fin 3) = (Fin (1 / 2), Fin (3 / 4), Fin (3 / 4))
   \<and> reinhard_r 1 = 1 / 2 \<and> reinhard_r 3 = 3 / 4
   \<and> (1 :: real) \<le> 3 \<and> representable 53 (1 + 1) \<and> representable 53 (1 + 3)
   \<and> (1 / 2 :: real) \<le> 3 / 4"
proof -
  have exact: "representable 53 (1 + 1)" "representable 53 (1 + 3)"
    using representable_int [of 2 53] representable_int [of 4 53] by simp_all
  with tonemapReinhard_rounded [of 1 3 3 1 3] representable_3 show ?thesis
    by (simp add: reinhard_r_1 reinhard_r_3)
qed

text \<open>
  The counterexample to C8 as stated. The channels \<open>2\<^sup>2\<^sup>5\<close> and \<open>2\<^sup>2\<^sup>6\<close> both map to exactly
  1: the output leaves \<open>[0, 1)\<close>, and the map is not strictly increasing. And of the two
  neighbouring doubles \<open>7464315174297769 / 2\<^sup>5\<^sup>1\<close> and \<open>7464315174297770 / 2\<^sup>5\<^sup>1\<close> (about
  3.3148), the smaller maps to the greater value: the sum \<open>1 + c\<close> of the first is rounded
  down and that of the second is exact, so over all doubles the map is not even
  non-decreasing.
\<close>

theorem tonemapReinhard_not_increasing:
  "(0 :: real) \<le> 2 ^ 25 \<and> (2 :: real) ^ 25 < 2 ^ 26
   \<and> representable 53 (2 ^ 25) \<and> representable 53 (2 ^ 26)
   \<and> tonemapReinhard (Fin (2 ^ 25), Fin (2 ^ 26), Fin 0) = (Fin 1, Fin 1, Fin 0)
   \<and> \<not> Fin 1 < Fin 1
   \<and> (0 :: real) \<le> 7464315174297769 / 2 ^ 51
   \<and> (7464315174297769 / 2 ^ 51 :: real) < 7464315174297770 / 2 ^ 51
   \<and> representable 53 (7464315174297769 / 2 ^ 51)
   \<and> representable 53 (7464315174297770 / 2 ^ 51)
   \<and> tonemapReinhard
        (Fin (7464315174297769 / 2 ^ 51), Fin (7464315174297770 / 2 ^ 51), Fin 0) =
       (Fin (12888941 / 2 ^ 24), Fin (12888940 / 2 ^ 24), Fin 0)
   \<and> Fin (12888940 / 2 ^ 24) < Fin (12888941 / 2 ^ 24)"
proof -
  have big: "representable 53 (2 ^ 25)" "representable 53 (2 ^ 26)"
    using representable_pow [of 25] representable_pow [of 26] by simp_all
  have near: "representable 53 (7464315174297769 / 2 ^ 51)"
    "representable 53 (7464315174297770 / 2 ^ 51)"
    using representable_scaled [of 7464315174297769 53 51]
      representable_scaled [of 7464315174297770 53 51]
    by simp_all
  have "roundTo 53 (1 + 2 ^ 25) \<noteq> 0" "roundTo 53 (1 + 2 ^ 26) \<noteq> 0"
    "roundTo 53 (1 + 0) \<noteq> 0"
    "roundTo 53 (1 + 7464315174297769 / 2 ^ 51) \<noteq> 0"
    "roundTo 53 (1 + 7464315174297770 / 2 ^ 51) \<noteq> 0"
    using roundTo_53_sum_pos [OF _ big(1)] roundTo_53_sum_pos [OF _ big(2)]
      roundTo_53_sum_pos [OF _ representable_0]
      roundTo_53_sum_pos [OF _ near(1)] roundTo_53_sum_pos [OF _ near(2)]
    by simp_all
  then have "tonemapReinhard (Fin (2 ^ 25), Fin (2 ^ 26), Fin 0) = (Fin 1, Fin 1, Fin 0)"
    and "tonemapReinhard
        (Fin (7464315174297769 / 2 ^ 51), Fin (7464315174297770 / 2 ^ 51), Fin 0) =
       (Fin (12888941 / 2 ^ 24), Fin (12888940 / 2 ^ 24), Fin 0)"
    using reinhard_r_2_25 reinhard_r_below reinhard_r_above
    by (simp_all add: tonemapReinhard_Fin reinhard_r_0)
  with big near show ?thesis
    by simp
qed

text \<open>
  Claim C10. For every image size, camera and pixel, the ray of \<open>rayForPixel\<close> starts at
  the origin \<open>(0, 0, 0)\<close> and the z component of its direction is \<open>-1\<close>, so its direction
  is never the zero vector.
\<close>

theorem rayForPixel_origin_direction:
  "origin (rayForPixel (Viewport dims' camera') x y) = (Fin 0, Fin 0, Fin 0)
   \<and> snd (snd (direction (rayForPixel (Viewport dims' camera') x y))) = Fin (- 1)
   \<and> direction (rayForPixel (Viewport dims' camera') x y) \<noteq> (Fin 0, Fin 0, Fin 0)"
  by (simp add: rayForPixel_def Let_def vec3_create_def vec3_fromValues_def)

section \<open>The path tracer\<close>

lemma indirectLoop_once:
  "indirectLoop trace weigh 1 0 acc k =
     (case trace k of
        Inl e \<Rightarrow> Inl e
      | Inr (None, k') \<Rightarrow> Inr (acc, k')
      | Inr (Some r, k') \<Rightarrow>
          (case weigh r of Inl e \<Rightarrow> Inl e | Inr c \<Rightarrow> Inr (vec3_add acc c, k')))"
  by (simp add: indirectLoop.simps [of _ _ 1 0] indirectLoop.simps [of _ _ 1 "Suc 0"]
      split: sum.splits option.splits prod.splits)

lemma scenario_contact:
  "intersectRaySphere scenarioRay (scenarioSphere name) = Some (scenarioHit name)"
  using raySphereT_fin [of "(0, 0, - 1)" "(0, 0, 0)" 1 "(0, 0, - 3)" name]
  by (simp add: scenarioRay_def scenarioSphere_def scenarioHit_def intersectRaySphere_def
      Let_def discriminant_r_def nearRoot_r_def)

lemma scenario_rayHits: "rayHits scenarioRay (scenarioScene name p) = [(0, scenarioHit name)]"
  by (simp add: rayHits_def spheresOf_def scenarioScene_def scenario_contact Array_sort_def)

lemma scenario_material:
  "Object_get (materials (scenarioScene ''red'' p)) (material (geometry (scenarioHit ''red''))) =
     Own red"
  "Object_get (materials (scenarioScene ''toString'' p))
     (material (geometry (scenarioHit ''toString''))) = Inherited"
  by (simp_all add: scenarioScene_def scenarioSphere_def scenarioHit_def Object_get_def
      Object_prototype_names_def)

lemma scenario_directLight:
  "directLight (scenarioScene name p) 0 (scenarioHit name) m =
     (case m of
        Own m' \<Rightarrow> Inr (evaluatePointLight (scenarioLight p) (scenarioHit name) m')
      | _ \<Rightarrow> Inl TypeError)"
  by (cases m)
     (simp_all add: directLight_def lightsOf_def occluded_def spheresOf_def scenarioScene_def
      vec3_add_create)

lemma scenario_radiance:
  "radianceForRay scenarioRay (scenarioScene ''red'' p) 1 1 rnd k =
     Inr (Some (evaluatePointLight (scenarioLight p) (scenarioHit ''red'') red), k + 2)"
  by (simp add: radianceForRay.simps [of _ _ 1] radianceForRay.simps [of _ _ 0]
      scenario_rayHits scenario_material scenario_directLight indirectLoop_once
      vec3_add_create vec3_scale_create
      cosineWeightedHemisphereSample_def cosineWeightedHemisphereSampleZ_def
      Math_random_def Let_def split: prod.splits)

lemma scenario_radiance_no_samples:
  "radianceForRay scenarioRay (scenarioScene ''red'' p) 1 0 rnd k =
     Inr (Some (NaN, NaN, NaN), k)"
  by (cases "evaluatePointLight (scenarioLight p) (scenarioHit ''red'') red")
     (simp add: radianceForRay.simps [of _ _ 1] scenario_rayHits scenario_material
      scenario_directLight indirectLoop.simps [of _ _ 0] vec3_create_def
      signedInf_def)

lemma scenario_radiance_inherited:
  "radianceForRay scenarioRay (scenarioScene ''toString'' p) 1 1 rnd k = Inl TypeError"
  by (simp add: radianceForRay.simps [of _ _ 1] scenario_rayHits scenario_material
      scenario_directLight)

lemma scenario_light_behind:
  "evaluatePointLight (scenarioLight (Fin 2, Fin 2, Fin (- 3))) (scenarioHit ''red'') red =
     (Fin 0, Fin 0, Fin 0)"
  by (simp add: evaluatePointLight_def lambertTerm_def Let_def scenarioLight_def
      scenarioHit_def red_def Math_PI_def sqrt_9)

lemma scenario_light_at_contact:
  "evaluatePointLight (scenarioLight (Fin 0, Fin 0, Fin (- 2))) (scenarioHit ''red'') red =
     (NaN, NaN, NaN)"
  by (simp add: evaluatePointLight_def lambertTerm_def Let_def scenarioLight_def
      scenarioHit_def red_def Math_PI_def signedInf_def)

lemma scenario_light_in_front:
  "evaluatePointLight (scenarioLight (Fin 0, Fin 0, Fin 1)) (scenarioHit ''red'') red =
     (Fin (1000 / (36 * (pi * pi))), Fin 0, Fin 0)"
  by (simp add: evaluatePointLight_def lambertTerm_def Let_def scenarioLight_def
      scenarioHit_def red_def Math_PI_def sqrt_9)

text \<open>
  Claim C1, as amended. In the scenario (one red sphere of centre \<open>(0, 0, -3)\<close> and radius
  1, one light of power 1000 at \<open>(2, 2, -3)\<close>, the ray from the origin with direction
  \<open>(0, 0, -1)\<close>), at depth 1 and with one indirect sample, \<open>radianceForRay\<close> returns a
  radiance; the ray's contact with the sphere is at \<open>(0, 0, -2)\<close>; and the red, green and
  blue channels are all exactly 0. The light lies behind the tangent plane at the contact
  (its direction has dot product \<open>-1/3\<close> with the normal), so the Lambert cosine is clamped
  to 0.
\<close>

theorem scenario_radiance_zero:
  "intersectRaySphere scenarioRay (scenarioSphere ''red'') = Some (scenarioHit ''red'')
   \<and> contact.position (scenarioHit ''red'') = (Fin 0, Fin 0, Fin (- 2))
   \<and> radianceForRay scenarioRay (scenarioScene ''red'' (Fin 2, Fin 2, Fin (- 3))) 1 1 rnd k =
       Inr (Some (Fin 0, Fin 0, Fin 0), k + 2)"
  by (simp add: scenario_contact scenario_radiance scenario_light_behind)
     (simp add: scenarioHit_def)

text \<open>
  The counterexample to C1 as stated: with no indirect sample the mean of the samples is
  \<open>0 * (1 / 0)\<close>, and the radiance is \<open>NaN\<close> in every channel; with one sample it is 0 in
  every channel. In neither case is the red channel positive.
\<close>

theorem scenario_red_not_positive:
  "radianceForRay scenarioRay (scenarioScene ''red'' (Fin 2, Fin 2, Fin (- 3))) 1 0 (\<lambda>i. 0) 0 =
     Inr (Some (NaN, NaN, NaN), 0)
   \<and> \<not> Fin 0 < NaN \<and> NaN \<noteq> Fin 0
   \<and> radianceForRay scenarioRay (scenarioScene ''red'' (Fin 2, Fin 2, Fin (- 3))) 1 1 (\<lambda>i. 0) 0 =
       Inr (Some (Fin 0, Fin 0, Fin 0), 2)
   \<and> \<not> Fin 0 < Fin 0"
  by (simp add: scenario_radiance_no_samples scenario_radiance scenario_light_behind)

text \<open>
  When the tracer returns \<^verbatim>\<open>null\<close> and when it cannot raise. \<open>radianceForRay\<close> returns \<^verbatim>\<open>null\<close> exactly when
  the depth is used up, no sphere is hit, or the lookup of the nearest hit's material
  gives \<^verbatim>\<open>undefined\<close>; and it raises nothing as long as every sphere's material name that
  \<^verbatim>\<open>Object.prototype\<close> also defines is one of the scene's own materials.
\<close>

lemma radianceForRay_null_iff:
  "radianceForRay ray scene' depth indirectSamples rnd k = Inr (None, k') \<longleftrightarrow>
     k' = k \<and>
     (depth \<le> 0 \<or> rayHits ray scene' = [] \<or>
      (\<exists>g hit rest. rayHits ray scene' = (g, hit) # rest \<and>
         Object_get (materials scene') (material (geometry hit)) = Undefined))"
  by (cases "rayHits ray scene'")
     (auto simp: radianceForRay.simps [of ray scene' depth]
      split: property.splits sum.splits prod.splits)

lemma set_insertBy: "set (insertBy cmp x ys) = insert x (set ys)"
  by (induction ys) auto

lemma set_Array_sort: "set (Array_sort cmp xs) = set xs"
  by (induction xs) (simp_all add: Array_sort_def set_insertBy)

lemma intersectRaySphere_geometry:
  "intersectRaySphere ray sphere = Some hit \<Longrightarrow> geometry hit = sphere"
  by (auto simp: intersectRaySphere_def Let_def split: option.splits if_splits)

lemma set_spheresOf: "(i, s) \<in> set (spheresOf scene') \<Longrightarrow> Sphere s \<in> set (objects scene')"
  by (auto simp: spheresOf_def in_set_enumerate_eq split: object3D.splits)
     (metis nth_mem)

lemma rayHits_geometry:
  assumes "(g, hit) \<in> set (rayHits ray scene')"
  shows "Sphere (geometry hit) \<in> set (objects scene')"
proof -
  from assms obtain i s where "(i, s) \<in> set (spheresOf scene')"
    and "intersectRaySphere ray s = Some hit"
    by (auto simp: rayHits_def set_Array_sort split: option.splits)
  then show ?thesis
    by (auto dest: intersectRaySphere_geometry set_spheresOf)
qed

lemma mapE_no_error: "(\<And>x. x \<in> set xs \<Longrightarrow> f x \<noteq> Inl e) \<Longrightarrow> mapE f xs \<noteq> Inl e"
  by (induction xs) (auto split: sum.splits)

lemma directLight_no_error: "p \<noteq> Inherited \<Longrightarrow> p \<noteq> Undefined \<Longrightarrow> directLight scene' g hit p \<noteq> Inl e"
proof -
  assume "p \<noteq> Inherited" and "p \<noteq> Undefined"
  then obtain m where p: "p = Own m"
    by (cases p) simp_all
  have "mapE (\<lambda>light. if occluded scene' g hit light then Inr vec3_create
                 else (case p of Own m \<Rightarrow> Inr (evaluatePointLight light hit m)
                       | _ \<Rightarrow> Inl TypeError)) (lightsOf scene') \<noteq> Inl e"
    by (rule mapE_no_error) (simp add: p)
  then show ?thesis
    by (auto simp: directLight_def split: sum.splits)
qed

lemma indirectLoop_no_error:
  assumes "\<And>k. trace k \<noteq> Inl e" and "\<And>v. weigh v \<noteq> Inl e"
  shows "indirectLoop trace weigh s i acc k \<noteq> Inl e"
  using assms
proof (induction trace weigh s i acc k rule: indirectLoop.induct)
  case (1 trace weigh s i acc k)
  show ?case
  proof (cases "real i < s")
    case False
    then show ?thesis
      by (simp add: indirectLoop.simps [of trace weigh s i])
  next
    case True
    with "1.IH" "1.prems" show ?thesis
      by (auto simp: indirectLoop.simps [of trace weigh s i]
          split: sum.splits option.splits prod.splits)
  qed
qed

lemma radianceForRay_no_error:
  assumes own: "\<forall>s. Sphere s \<in> set (objects scene') \<longrightarrow>
                  material s \<in> set Object_prototype_names \<longrightarrow>
                  material s \<in> dom (materials scene')"
  shows "radianceForRay ray scene' depth indirectSamples rnd k \<noteq> Inl e"
proof (induction "nat \<lceil>depth\<rceil>" arbitrary: ray depth k rule: less_induct)
  case less
  show ?case
  proof (cases "depth \<le> 0")
    case True
    then show ?thesis
      by (simp add: radianceForRay.simps [of ray scene' depth])
  next
    case False
    then have deeper: "nat \<lceil>depth - 1\<rceil> < nat \<lceil>depth\<rceil>"
      by linarith
    show ?thesis
    proof (cases "rayHits ray scene'")
      case Nil
      then show ?thesis
        by (simp add: radianceForRay.simps [of ray scene' depth])
    next
      case (Cons first rest)
      obtain g hit where first: "first = (g, hit)"
        by (cases first)
      define p where "p = Object_get (materials scene') (material (geometry hit))"
      from Cons first have "(g, hit) \<in> set (rayHits ray scene')"
        by simp
      then have "Sphere (geometry hit) \<in> set (objects scene')"
        by (rule rayHits_geometry)
      with own have p: "p \<noteq> Inherited"
        by (auto simp: p_def Object_get_def split: option.splits)
      show ?thesis
      proof (cases p)
        case Undefined
        with Cons first False show ?thesis
          by (simp add: radianceForRay.simps [of ray scene' depth] p_def [symmetric])
      next
        case Inherited
        with p show ?thesis
          by simp
      next
        case (Own m)
        have direct: "directLight scene' g hit (Own m) \<noteq> Inl e"
          by (rule directLight_no_error) simp_all
        have loop: "indirectLoop
            (\<lambda>k. let (indirectDir, k') = cosineWeightedHemisphereSample (normal hit) rnd k;
                     indirectOrigin = vec3_scaleAndAdd (contact.position hit) (normal hit)
                        (Fin (1 / 1000));
                     indirectRay = \<lparr>origin = indirectOrigin, direction = indirectDir\<rparr>
                 in radianceForRay indirectRay scene' (depth - 1) indirectSamples rnd k')
            (\<lambda>incomingRadiance. case Own m of
                 Own m \<Rightarrow> Inr (vec3_multiply (albedo m) incomingRadiance)
               | _ \<Rightarrow> Inl TypeError)
            indirectSamples 0 vec3_create k \<noteq> Inl e"
          by (rule indirectLoop_no_error)
             (auto simp: Let_def less.hyps [OF deeper] split: prod.splits)
        from Cons first False Own direct loop show ?thesis
          by (cases e) (auto simp: radianceForRay.simps [of ray scene' depth] p_def [symmetric]
              split: sum.splits prod.splits)
      qed
    qed
  qed
qed

text \<open>
  Claim C2. \<open>radianceForRay\<close> is to return \<open>None\<close> when the nearest hit sphere's material
  name does not resolve in the scene's materials, and never to raise. The scenario's
  sphere with the material name \<open>toString\<close>, which the scene's materials do not hold: the
  lookup finds the function that every object inherits, the guard lets it pass, and
  shading the light reads \<open>albedo[0]\<close> of \<open>undefined\<close>.
\<close>

theorem inherited_material_raises:
  "materials (scenarioScene ''toString'' (Fin 0, Fin 0, Fin 1)) ''toString'' = None
   \<and> rayHits scenarioRay (scenarioScene ''toString'' (Fin 0, Fin 0, Fin 1)) =
       [(0, scenarioHit ''toString'')]
   \<and> radianceForRay scenarioRay (scenarioScene ''toString'' (Fin 0, Fin 0, Fin 1)) 1 1
         (\<lambda>i. 0) 0 = Inl TypeError"
  by (simp add: scenario_rayHits scenario_radiance_inherited) (simp add: scenarioScene_def)

lemma mapE_all:
  "mapE f xs = Inr ys \<Longrightarrow> \<forall>x \<in> set xs. \<forall>y. f x = Inr y \<longrightarrow> Q y \<Longrightarrow> \<forall>y \<in> set ys. Q y"
  by (induction xs arbitrary: ys) (auto split: sum.splits)

lemma set_lightsOf: "set (lightsOf scene') = {l. Light l \<in> set (objects scene')}"
  by (auto simp: lightsOf_def split: object3D.splits)

subsection \<open>Radiance of a well-formed scene\<close>

lemma Number_isFinite_iff: "Number_isFinite a \<longleftrightarrow> a = Fin (toReal a)"
  by (cases a) simp_all

lemma finite3_iff: "finite3 v \<longleftrightarrow> v = fin3 (real3 v)"
  by (cases v) (auto simp: Number_isFinite_iff)

lemma finite3_fin3 [simp]: "finite3 (fin3 a)"
  by (cases a) simp

lemma finiteNonNegative_iff: "finiteNonNegative a \<longleftrightarrow> Number_isFinite a \<and> Fin 0 \<le> a"
  by (cases a) (auto simp: less_eq_number_def)

lemma finiteNonNegative3_fin3:
  "finiteNonNegative3 (fin3 a) \<longleftrightarrow> 0 \<le> fst a \<and> 0 \<le> fst (snd a) \<and> 0 \<le> snd (snd a)"
  by (cases a) simp

lemma finiteNonNegative_mult:
  "finiteNonNegative a \<Longrightarrow> finiteNonNegative b \<Longrightarrow> finiteNonNegative (a * b)"
  by (cases a; cases b) simp_all

lemma finiteNonNegative_add:
  "finiteNonNegative a \<Longrightarrow> finiteNonNegative b \<Longrightarrow> finiteNonNegative (a + b)"
  by (cases a; cases b) simp_all

lemma finiteNonNegative3_add:
  "finiteNonNegative3 a \<Longrightarrow> finiteNonNegative3 b \<Longrightarrow> finiteNonNegative3 (vec3_add a b)"
  by (cases a; cases b) (simp add: finiteNonNegative_add)

lemma finiteNonNegative3_multiply:
  "finiteNonNegative3 a \<Longrightarrow> finiteNonNegative3 b \<Longrightarrow> finiteNonNegative3 (vec3_multiply a b)"
  by (cases a; cases b) (simp add: finiteNonNegative_mult)

lemma finiteNonNegative3_scale:
  "finiteNonNegative3 a \<Longrightarrow> finiteNonNegative s \<Longrightarrow> finiteNonNegative3 (vec3_scale a s)"
  by (cases a) (simp add: finiteNonNegative_mult)

lemma finiteNonNegative3_create: "finiteNonNegative3 vec3_create"
  by (simp add: vec3_create_def)

lemma finiteNonNegative3_foldl:
  "finiteNonNegative3 acc \<Longrightarrow> \<forall>x \<in> set xs. finiteNonNegative3 x \<Longrightarrow>
   finiteNonNegative3 (foldl vec3_add acc xs)"
  by (induction xs arbitrary: acc) (simp_all add: finiteNonNegative_add finiteNonNegative3_add)

lemma sub_add_r: "sub_r (add_r a b) c = add_r (sub_r a c) b"
  by (cases a; cases b; cases c) simp

lemma near_root_on_sphere:
  assumes "d \<noteq> (0, 0, 0)" and "0 \<le> discriminant_r orig d c r"
  shows "dot_r (sub_r (add_r orig (scale_r d (nearRoot_r orig d c r))) c)
           (sub_r (add_r orig (scale_r d (nearRoot_r orig d c r))) c) = r * r"
proof -
  define oc where "oc = sub_r orig c"
  define a where "a = dot_r d d"
  define b where "b = 2 * dot_r oc d"
  define D where "D = discriminant_r orig d c r"
  define t where "t = nearRoot_r orig d c r"
  have a: "0 < a"
    unfolding a_def using assms(1) by (rule dot_r_self_pos)
  have D: "D = b * b - 4 * a * (dot_r oc oc - r * r)"
    by (simp add: D_def discriminant_r_def Let_def oc_def a_def b_def)
  have sq: "sqrt D * sqrt D = D"
    using assms(2) by (simp add: D_def)
  have t: "2 * a * t = - b - sqrt D"
    using a by (simp add: t_def nearRoot_r_def Let_def oc_def [symmetric] a_def [symmetric]
        b_def [symmetric] D_def [symmetric])
  have "4 * a * (a * t * t + b * t) = (2 * a * t) * (2 * a * t) + 2 * b * (2 * a * t)"
    by (simp add: algebra_simps)
  also have "\<dots> = sqrt D * sqrt D - b * b"
    unfolding t by (simp add: algebra_simps)
  also have "\<dots> = D - b * b"
    by (simp only: sq)
  also have "\<dots> = - (4 * a * (dot_r oc oc - r * r))"
    by (simp only: D)
  finally have "(4 * a) * (a * t * t + b * t) = (4 * a) * (r * r - dot_r oc oc)"
    by (simp add: algebra_simps)
  moreover have "4 * a \<noteq> 0"
    using a by simp
  ultimately have "a * t * t + b * t = r * r - dot_r oc oc"
    by (rule mult_left_cancel [THEN iffD1, rotated])
  moreover have "dot_r (add_r oc (scale_r d t)) (add_r oc (scale_r d t)) =
      dot_r oc oc + b * t + a * t * t"
    by (simp add: dot_r_add_left dot_r_add_right dot_r_scale_left dot_r_scale_right
        a_def b_def dot_r_commute [of d oc] algebra_simps)
  ultimately show ?thesis
    by (simp add: sub_add_r oc_def [symmetric] t_def [symmetric])
qed

lemma Object_get_Own: "Object_get ms name = Own m \<Longrightarrow> m \<in> ran ms"
  by (auto simp: Object_get_def ran_def split: option.splits if_splits)

lemma fin3_eq_iff [simp]: "fin3 a = fin3 b \<longleftrightarrow> a = b"
  by (cases a; cases b) simp

lemma finite3_ex: "finite3 v \<Longrightarrow> \<exists>a. v = fin3 a"
  using finite3_iff by blast

lemma Number_isFinite_ex: "Number_isFinite a \<Longrightarrow> \<exists>x. a = Fin x"
  using Number_isFinite_iff by blast

lemma intersectRaySphere_fin:
  assumes "properRay ray" and "finite3 (sphere.position s)" and "Number_isFinite (radius s)"
    and "radius s \<noteq> Fin 0" and "intersectRaySphere ray s = Some hit"
  shows "\<exists>p n c r. contact.position hit = fin3 p \<and> normal hit = fin3 n \<and> dot_r n n = 1 \<and>
           sphere.position s = fin3 c \<and> radius s = Fin r \<and>
           dot_r (sub_r p c) (sub_r p c) = r * r"
proof -
  from assms(1) have "finite3 (origin ray)" and "finite3 (direction ray)"
    by (simp_all add: properRay_def)
  then obtain orig d where o: "origin ray = fin3 orig" and d: "direction ray = fin3 d"
    using finite3_ex by blast
  from assms(1) d have d0: "d \<noteq> (0, 0, 0)"
    by (auto simp: properRay_def)
  from assms(2) obtain c where c: "sphere.position s = fin3 c"
    using finite3_ex by blast
  from assms(3) obtain r where r: "radius s = Fin r"
    using Number_isFinite_ex by blast
  from assms(4) r have r0: "r \<noteq> 0"
    by simp
  have ray: "ray = \<lparr>origin = fin3 orig, direction = fin3 d\<rparr>"
    using o d by (cases ray) simp
  have s: "s = \<lparr>radius = Fin r, position = fin3 c, material = material s\<rparr>"
    using c r by (cases s) simp
  define t where "t = nearRoot_r orig d c r"
  define p where "p = add_r orig (scale_r d t)"
  have T: "raySphereT ray s =
      (if discriminant_r orig d c r < 0 then None else Some (Fin t))"
    unfolding t_def by (subst ray, subst s) (rule raySphereT_fin [OF d0])
  from assms(5) have disc: "0 \<le> discriminant_r orig d c r"
    by (auto simp: intersectRaySphere_def T split: if_splits)
  with assms(5) have hit: "hit = \<lparr>position = fin3 p,
      normal = fin3 (normalize_r (sub_r p c)), geometry = s\<rparr>"
    by (auto simp: intersectRaySphere_def T Let_def o d c p_def split: if_splits)
  have surf: "dot_r (sub_r p c) (sub_r p c) = r * r"
    unfolding p_def t_def using d0 disc by (rule near_root_on_sphere)
  with r0 have "0 < dot_r (sub_r p c) (sub_r p c)"
    by (simp add: zero_less_mult_iff less_le not_le)
  then have "dot_r (normalize_r (sub_r p c)) (normalize_r (sub_r p c)) = 1"
    by (rule normalize_r_unit)
  with hit c r surf show ?thesis
    by auto
qed

lemma rayHits_sphere:
  assumes "(g, hit) \<in> set (rayHits ray scene')"
  shows "\<exists>s. Sphere s \<in> set (objects scene') \<and> intersectRaySphere ray s = Some hit"
proof -
  from assms obtain i s where "(i, s) \<in> set (spheresOf scene')"
    and "intersectRaySphere ray s = Some hit"
    by (auto simp: rayHits_def set_Array_sort split: option.splits)
  then show ?thesis
    by (auto dest: set_spheresOf)
qed

lemma finiteNonNegative3_evaluatePointLight:
  assumes "light.position l = fin3 L" and "radiantPower l = Fin pw" and "0 \<le> pw"
    and "contact.position hit = fin3 P" and "normal hit = fin3 N"
    and "finiteNonNegative3 (albedo m)" and "L \<noteq> P"
  shows "finiteNonNegative3 (evaluatePointLight l hit m)"
proof -
  from assms(7) have "sub_r L P \<noteq> (0, 0, 0)"
    by (cases L; cases P) auto
  then have pos: "0 < dot_r (sub_r L P) (sub_r L P)"
    by (rule dot_r_self_pos)
  have "finiteNonNegative (Fin 1 / Math_PI)"
    by (simp add: Math_PI_def)
  moreover have "finiteNonNegative (Math_max (Fin (dot_r (normalize_r (sub_r L P)) N)) (Fin 0))"
    by simp
  moreover have "finiteNonNegative
      (Fin pw / (Fin 4 * Math_PI) * (Fin 1 / Fin (dot_r (sub_r L P) (sub_r L P))))"
    using pos assms(3) by (simp add: Math_PI_def)
  ultimately show ?thesis
    unfolding evaluatePointLight_def lambertTerm_def Let_def assms(1,2,4,5)
      vec3_subtract_fin3 vec3_sqrLen_fin3 vec3_normalize_fin3 vec3_dot_fin3
    using assms(6) by (intro finiteNonNegative3_scale)
qed

lemma finiteNonNegative3_directLight:
  assumes "directLight scene' g hit p = Inr v"
    and "\<And>l m. l \<in> set (lightsOf scene') \<Longrightarrow> p = Own m \<Longrightarrow>
           finiteNonNegative3 (evaluatePointLight l hit m)"
  shows "finiteNonNegative3 v"
proof -
  let ?f = "\<lambda>light. if occluded scene' g hit light then Inr vec3_create
                  else (case p of Own m \<Rightarrow> Inr (evaluatePointLight light hit m)
                        | _ \<Rightarrow> Inl TypeError)"
  from assms(1) obtain xs where xs: "mapE ?f (lightsOf scene') = Inr xs"
    and v: "v = foldl vec3_add vec3_create xs"
    by (auto simp: directLight_def split: sum.splits)
  have "\<forall>l \<in> set (lightsOf scene'). \<forall>y. ?f l = Inr y \<longrightarrow> finiteNonNegative3 y"
  proof (intro ballI allI impI)
    fix l y
    assume l: "l \<in> set (lightsOf scene')" and y: "?f l = Inr y"
    show "finiteNonNegative3 y"
    proof (cases "occluded scene' g hit l")
      case True
      with y show ?thesis
        using finiteNonNegative3_create by simp
    next
      case False
      with y obtain m where "p = Own m" and "y = evaluatePointLight l hit m"
        by (cases p) simp_all
      with l show ?thesis
        by (simp add: assms(2))
    qed
  qed
  with xs have "\<forall>y \<in> set xs. finiteNonNegative3 y"
    by (rule mapE_all)
  with v show ?thesis
    by (simp add: finiteNonNegative3_foldl finiteNonNegative3_create)
qed

lemma finiteNonNegative3_indirectLoop:
  assumes "indirectLoop trace weigh s i acc k = Inr (v, k')"
    and "finiteNonNegative3 acc"
    and "\<And>k r k'. trace k = Inr (Some r, k') \<Longrightarrow> finiteNonNegative3 r"
    and "\<And>r c. finiteNonNegative3 r \<Longrightarrow> weigh r = Inr c \<Longrightarrow> finiteNonNegative3 c"
  shows "finiteNonNegative3 v"
  using assms
proof (induction trace weigh s i acc k rule: indirectLoop.induct)
  case (1 trace weigh s i acc k)
  show ?case
  proof (cases "real i < s")
    case False
    with "1.prems" show ?thesis
      by (simp add: indirectLoop.simps [of trace weigh s i])
  next
    case True
    show ?thesis
    proof (cases "trace k")
      case (Inl e)
      with True "1.prems"(1) show ?thesis
        by (simp add: indirectLoop.simps [of trace weigh s i])
    next
      case (Inr res)
      obtain r k1 where res: "res = (r, k1)"
        by (cases res)
      show ?thesis
      proof (cases r)
        case None
        with True Inr res "1.prems"(1)
        have "indirectLoop trace weigh s (Suc i) acc k1 = Inr (v, k')"
          by (simp add: indirectLoop.simps [of trace weigh s i])
        with "1.IH"(1) [OF True Inr res [symmetric] None] "1.prems"(2-4) show ?thesis
          by blast
      next
        case (Some rad)
        with Inr res have t: "trace k = Inr (Some rad, k1)"
          by simp
        then have nn: "finiteNonNegative3 rad"
          by (rule "1.prems"(3))
        show ?thesis
        proof (cases "weigh rad")
          case (Inl e)
          with True t "1.prems"(1) show ?thesis
            by (simp add: indirectLoop.simps [of trace weigh s i])
        next
          case (Inr c)
          with nn have c: "finiteNonNegative3 c"
            using "1.prems"(4) by blast
          from True t Inr "1.prems"(1)
          have "indirectLoop trace weigh s (Suc i) (vec3_add acc c) k1 = Inr (v, k')"
            by (simp add: indirectLoop.simps [of trace weigh s i])
          moreover have "finiteNonNegative3 (vec3_add acc c)"
            using "1.prems"(2) c by (rule finiteNonNegative3_add)
          ultimately show ?thesis
            using "1.IH"(2) [OF True \<open>trace k = Inr res\<close> res [symmetric] Some Inr]
              "1.prems"(3,4) by blast
        qed
      qed
    qed
  qed
qed

lemma finiteNonNegative3_radianceForRay:
  assumes mats: "\<forall>m \<in> ran (materials scene'). finiteNonNegative3 (albedo m)"
    and power: "\<forall>l. Light l \<in> set (objects scene') \<longrightarrow> Fin 0 < radiantPower l"
    and fin: "finiteScene scene'"
    and nondeg: "nonDegenerate scene'"
    and samples: "1 \<le> indirectSamples"
    and draws: "\<forall>i. 0 \<le> rnd i \<and> rnd i < 1"
  shows "properRay ray \<Longrightarrow>
         radianceForRay ray scene' depth indirectSamples rnd k = Inr (Some v, k') \<Longrightarrow>
         finiteNonNegative3 v"
proof (induction "nat \<lceil>depth\<rceil>" arbitrary: ray depth k k' v rule: less_induct)
  case less
  note proper = less.prems(1) and run = less.prems(2)
  show ?case
  proof (cases "depth \<le> 0")
    case True
    with run show ?thesis
      by (simp add: radianceForRay.simps [of ray scene' depth])
  next
    case False
    then have deeper: "nat \<lceil>depth - 1\<rceil> < nat \<lceil>depth\<rceil>"
      by linarith
    from False run obtain g hit rest where hits: "rayHits ray scene' = (g, hit) # rest"
      by (cases "rayHits ray scene'") (auto simp: radianceForRay.simps [of ray scene' depth])
    then have "(g, hit) \<in> set (rayHits ray scene')"
      by simp
    then obtain s where s: "Sphere s \<in> set (objects scene')"
      and contact: "intersectRaySphere ray s = Some hit"
      using rayHits_sphere by blast
    from fin s have "finite3 (sphere.position s)" and "Number_isFinite (radius s)"
      by (simp_all add: finiteScene_def)
    moreover from nondeg s have "radius s \<noteq> Fin 0"
      by (simp add: nonDegenerate_def)
    ultimately obtain P N c r where P: "contact.position hit = fin3 P"
      and N: "normal hit = fin3 N" and unit: "dot_r N N = 1"
      and c: "sphere.position s = fin3 c" and r: "radius s = Fin r"
      and surface: "dot_r (sub_r P c) (sub_r P c) = r * r"
      using intersectRaySphere_fin [OF proper _ _ _ contact] by blast
    define p where "p = Object_get (materials scene') (material (geometry hit))"
    have albedo: "finiteNonNegative3 (albedo m)" if "p = Own m" for m
      using that mats Object_get_Own [of "materials scene'" _ m] by (auto simp: p_def)
    define trace where "trace = (\<lambda>k.
        let (indirectDir, k') = cosineWeightedHemisphereSample (normal hit) rnd k;
            indirectOrigin = vec3_scaleAndAdd (contact.position hit) (normal hit) (Fin (1 / 1000));
            indirectRay = \<lparr>origin = indirectOrigin, direction = indirectDir\<rparr>
        in radianceForRay indirectRay scene' (depth - 1) indirectSamples rnd k')"
    define weigh where "weigh = (\<lambda>incomingRadiance.
        case p of Own m \<Rightarrow> Inr (vec3_multiply (albedo m) incomingRadiance)
        | _ \<Rightarrow> Inl TypeError)"
    from False run hits obtain direct indirect where
      direct: "directLight scene' g hit p = Inr direct"
      and loop: "indirectLoop trace weigh indirectSamples 0 vec3_create k = Inr (indirect, k')"
      and v: "v = vec3_add direct (vec3_scale indirect (Fin 1 / Fin indirectSamples))"
      unfolding p_def trace_def weigh_def
      by (auto simp: radianceForRay.simps [of ray scene' depth]
          split: property.splits sum.splits prod.splits)
    have "finiteNonNegative3 direct"
      using direct
    proof (rule finiteNonNegative3_directLight)
      fix l m
      assume "l \<in> set (lightsOf scene')" and m: "p = Own m"
      then have l: "Light l \<in> set (objects scene')"
        by (simp add: set_lightsOf)
      with fin obtain L pw where L: "light.position l = fin3 L" and pw: "radiantPower l = Fin pw"
        unfolding finiteScene_def using finite3_ex Number_isFinite_ex by blast
      from power l pw have "0 \<le> pw"
        by auto
      moreover have "L \<noteq> P"
      proof
        assume "L = P"
        from nondeg l s
        have "vec3_sqrLen (vec3_subtract (light.position l) (sphere.position s)) \<noteq>
            radius s * radius s"
          by (simp add: nonDegenerate_def)
        with surface L c r \<open>L = P\<close> show False
          by simp
      qed
      ultimately show "finiteNonNegative3 (evaluatePointLight l hit m)"
        using L pw P N albedo [OF m] by (intro finiteNonNegative3_evaluatePointLight)
    qed
    moreover have "finiteNonNegative3 indirect"
      using loop finiteNonNegative3_create
    proof (rule finiteNonNegative3_indirectLoop)
      fix j rad j'
      assume t: "trace j = Inr (Some rad, j')"
      from draws have u: "0 \<le> rnd j" "rnd j < 1"
        by simp_all
      define dir where "dir = sample_r N (rnd j) (rnd (Suc j))"
      define ray' where "ray' = \<lparr>origin = fin3 (add_r P (scale_r N (1 / 1000))),
          direction = fin3 dir\<rparr>"
      have "dot_r dir dir = 1"
        unfolding dir_def using unit u by (rule sample_r_unit)
      then have "dir \<noteq> (0, 0, 0)"
        by auto
      then have "properRay ray'"
        by (cases dir) (simp add: properRay_def ray'_def)
      moreover from t have "radianceForRay ray' scene' (depth - 1) indirectSamples rnd (j + 2) =
          Inr (Some rad, j')"
        by (simp add: trace_def N P sample_fin [of rnd j, OF u(1)] ray'_def dir_def del: fin3.simps)
      ultimately show "finiteNonNegative3 rad"
        by (rule less.hyps [OF deeper])
    next
      fix rad c'
      assume "finiteNonNegative3 rad" and "weigh rad = Inr c'"
      then show "finiteNonNegative3 c'"
        using albedo by (auto simp: weigh_def finiteNonNegative3_multiply split: property.splits)
    qed
    moreover have "finiteNonNegative (Fin 1 / Fin indirectSamples)"
      using samples by simp
    ultimately show ?thesis
      unfolding v by (intro finiteNonNegative3_add finiteNonNegative3_scale)
  qed
qed




end
